theory Spec2Isabelle
  imports Complex_Main "HOL-Library.Char_ord" "HOL-Library.List_Lexorder"
begin

section \<open>Python values and exceptions\<close>

text \<open>
  A raised exception is a value \<open>Inl e\<close> of a sum type; \<open>e\<close> carries the exception class
  and its message. Messages of exceptions raised by the source itself are the source's own
  strings; messages of exceptions raised by the Python runtime or by numpy are indicative.
\<close>

datatype error =
    ValueError string
  | TypeError string
  | KeyError string
  | AttributeError string
  | IndexError string
  | ZeroDivisionError string

text \<open>\<^verbatim>\<open>list.index(x)\<close>: the position of the first occurrence, \<^verbatim>\<open>ValueError\<close> when absent.\<close>

fun index_of :: "'a list \<Rightarrow> 'a \<Rightarrow> nat option" where
  "index_of [] x = None"
| "index_of (y # ys) x = (if y = x then Some 0 else map_option Suc (index_of ys x))"

definition py_index :: "'a list \<Rightarrow> 'a \<Rightarrow> error + nat" where
  "py_index xs x =
     (case index_of xs x of
        None \<Rightarrow> Inl (ValueError ''x is not in list'')
      | Some i \<Rightarrow> Inr i)"

text \<open>\<^verbatim>\<open>list.pop(i)\<close> for an index in range: the list without position \<open>i\<close>.\<close>

definition pop_at :: "nat \<Rightarrow> 'a list \<Rightarrow> 'a list" where
  "pop_at i xs = take i xs @ drop (Suc i) xs"

section \<open>numpy arrays\<close>

text \<open>
  An \<^verbatim>\<open>ndarray\<close> is its shape and its buffer in row-major (C) order. Every numpy operation
  the data model calls is written out on this representation: the array it returns is
  tabulated from the index arithmetic numpy documents for it.
\<close>

record 'a ndarray =
  shape :: "nat list"
  data :: "'a list"

definition ndim :: "'a ndarray \<Rightarrow> nat" where
  "ndim a = length (shape a)"

definition valid_ndarray :: "'a ndarray \<Rightarrow> bool" where
  "valid_ndarray a \<longleftrightarrow> length (data a) = prod_list (shape a)"

text \<open>All multi-indices of a shape, in row-major order, and the offset of one of them.\<close>

fun all_indices :: "nat list \<Rightarrow> nat list list" where
  "all_indices [] = [[]]"
| "all_indices (n # ns) = concat (map (\<lambda>i. map ((#) i) (all_indices ns)) [0..<n])"

fun flat_index :: "nat list \<Rightarrow> nat list \<Rightarrow> nat" where
  "flat_index (n # ns) (i # is) = i * prod_list ns + flat_index ns is"
| "flat_index _ _ = 0"

definition valid_index :: "nat list \<Rightarrow> nat list \<Rightarrow> bool" where
  "valid_index sh idx \<longleftrightarrow> list_all2 (\<lambda>i n. i < n) idx sh"

definition get :: "'a ndarray \<Rightarrow> nat list \<Rightarrow> 'a" where
  "get a idx = data a ! flat_index (shape a) idx"

definition tabulate :: "nat list \<Rightarrow> (nat list \<Rightarrow> 'a) \<Rightarrow> 'a ndarray" where
  "tabulate sh f = \<lparr>shape = sh, data = map f (all_indices sh)\<rparr>"

text \<open>Elementwise application of a function (a ufunc with a scalar second operand).\<close>

definition map_nd :: "('a \<Rightarrow> 'b) \<Rightarrow> 'a ndarray \<Rightarrow> 'b ndarray" where
  "map_nd f a = \<lparr>shape = shape a, data = map f (data a)\<rparr>"

text \<open>
  Broadcasting of two shapes: aligned at the trailing axis, padded with 1 on the left; two
  lengths are compatible when they are equal or one of them is 1.
\<close>

definition pad_shape :: "nat \<Rightarrow> nat list \<Rightarrow> nat list" where
  "pad_shape n sh = replicate (n - length sh) 1 @ sh"

definition broadcast_shapes :: "nat list \<Rightarrow> nat list \<Rightarrow> nat list option" where
  "broadcast_shapes s1 s2 =
     (let n = max (length s1) (length s2); p1 = pad_shape n s1; p2 = pad_shape n s2
      in if list_all2 (\<lambda>a b. a = b \<or> a = 1 \<or> b = 1) p1 p2
         then Some (map2 (\<lambda>a b. if a = 1 then b else a) p1 p2)
         else None)"

definition broadcast_index :: "nat list \<Rightarrow> nat list \<Rightarrow> nat list" where
  "broadcast_index sh idx =
     map2 (\<lambda>n i. if n = 1 then 0 else i) sh (drop (length idx - length sh) idx)"

definition np_binop :: "('a \<Rightarrow> 'a \<Rightarrow> 'a) \<Rightarrow> 'a ndarray \<Rightarrow> 'a ndarray \<Rightarrow> error + 'a ndarray" where
  "np_binop f a b =
     (case broadcast_shapes (shape a) (shape b) of
        None \<Rightarrow> Inl (ValueError ''operands could not be broadcast together'')
      | Some sh \<Rightarrow>
          Inr (tabulate sh (\<lambda>idx. f (get a (broadcast_index (shape a) idx))
                                     (get b (broadcast_index (shape b) idx)))))"

text \<open>
  \<^verbatim>\<open>np.transpose(a, axes)\<close>: axis \<open>k\<close> of the result is axis \<open>axes ! k\<close> of \<open>a\<close>; \<open>axes\<close> must
  be a permutation of \<open>range(a.ndim)\<close>.
\<close>

definition is_permutation :: "nat list \<Rightarrow> nat \<Rightarrow> bool" where
  "is_permutation axes n \<longleftrightarrow> length axes = n \<and> distinct axes \<and> list_all (\<lambda>k. k < n) axes"

definition np_transpose :: "'a ndarray \<Rightarrow> nat list \<Rightarrow> error + 'a ndarray" where
  "np_transpose a axes =
     (if length axes \<noteq> ndim a then Inl (ValueError ''axes don't match array'')
      else if \<not> is_permutation axes (ndim a) then Inl (ValueError ''repeated axis in transpose'')
      else Inr (tabulate (map (\<lambda>k. shape a ! k) axes)
                  (\<lambda>idx. get a (map (\<lambda>j. idx ! the (index_of axes j)) [0..<ndim a]))))"

text \<open>
  \<^verbatim>\<open>np.concatenate((a, b), axis)\<close>: both arrays have the same rank, at least 1, and the same
  length along every axis but \<open>axis\<close>.
\<close>

definition np_concatenate :: "'a ndarray \<Rightarrow> 'a ndarray \<Rightarrow> nat \<Rightarrow> error + 'a ndarray" where
  "np_concatenate a b axis =
     (if ndim a = 0 \<or> ndim b = 0
        then Inl (ValueError ''zero-dimensional arrays cannot be concatenated'')
      else if ndim a \<noteq> ndim b
        then Inl (ValueError ''all the input arrays must have same number of dimensions'')
      else if \<not> axis < ndim a
        then Inl (ValueError ''axis is out of bounds for array'')
      else if (shape a)[axis := 0] \<noteq> (shape b)[axis := 0]
        then Inl (ValueError ''all the input array dimensions except for the concatenation axis must match exactly'')
      else Inr (tabulate ((shape a)[axis := shape a ! axis + shape b ! axis])
                  (\<lambda>idx. if idx ! axis < shape a ! axis then get a idx
                         else get b (idx[axis := idx ! axis - shape a ! axis]))))"

text \<open>\<^verbatim>\<open>np.sum(a, axis)\<close>: the axis is removed, each entry is the sum along it.\<close>

definition np_sum :: "('a::monoid_add) ndarray \<Rightarrow> nat \<Rightarrow> error + 'a ndarray" where
  "np_sum a axis =
     (if \<not> axis < ndim a then Inl (ValueError ''axis is out of bounds for array'')
      else Inr (tabulate (pop_at axis (shape a))
                  (\<lambda>idx. sum_list (map (\<lambda>j. get a (take axis idx @ j # drop axis idx))
                                       [0..<shape a ! axis]))))"

text \<open>
  \<^verbatim>\<open>np.amax(a, axis)\<close>: as \<^verbatim>\<open>np.sum\<close> with the maximum; a reduction over an axis of length 0
  has no identity and raises.
\<close>

definition np_amax :: "('a::linorder) ndarray \<Rightarrow> nat \<Rightarrow> error + 'a ndarray" where
  "np_amax a axis =
     (if \<not> axis < ndim a then Inl (ValueError ''axis is out of bounds for array'')
      else if shape a ! axis = 0
        then Inl (ValueError ''zero-size array to reduction operation maximum which has no identity'')
      else Inr (tabulate (pop_at axis (shape a))
                  (\<lambda>idx. fold max (map (\<lambda>j. get a (take axis idx @ j # drop axis idx))
                                       [1..<shape a ! axis])
                           (get a (take axis idx @ 0 # drop axis idx)))))"

section \<open>Slices\<close>

text \<open>
  A \<^verbatim>\<open>slice(start, stop, step)\<close> object; \<open>None\<close> is Python's \<^verbatim>\<open>None\<close>. \<open>slice_adjust\<close> is
  \<^verbatim>\<open>slice.indices(length)\<close>, and the positions a slice selects in a sequence of that length
  are \<^verbatim>\<open>range(*slice.indices(length))\<close>. Lists and numpy arrays slice alike.
\<close>

datatype pyslice = Slice "int option" "int option" "int option"

definition slice_bound :: "int option \<Rightarrow> int \<Rightarrow> int \<Rightarrow> int \<Rightarrow> int \<Rightarrow> int" where
  "slice_bound b dflt lower upper len =
     (case b of
        None \<Rightarrow> dflt
      | Some s \<Rightarrow> if s < 0 then max (s + len) lower else min s upper)"

fun slice_adjust :: "pyslice \<Rightarrow> int \<Rightarrow> error + int \<times> int \<times> int" where
  "slice_adjust (Slice a b c) len =
     (let step = (case c of None \<Rightarrow> 1 | Some s \<Rightarrow> s)
      in if step = 0 then Inl (ValueError ''slice step cannot be zero'')
         else
           (let lower = (if step < 0 then - 1 else 0);
                upper = (if step < 0 then len - 1 else len);
                start = slice_bound a (if step < 0 then upper else lower) lower upper len;
                stop = slice_bound b (if step < 0 then lower else upper) lower upper len
            in Inr (start, stop, step)))"

definition range_len :: "int \<Rightarrow> int \<Rightarrow> int \<Rightarrow> nat" where
  "range_len start stop step =
     (if 0 < step \<and> start < stop then nat ((stop - start - 1) div step + 1)
      else if step < 0 \<and> stop < start then nat ((start - stop - 1) div (- step) + 1)
      else 0)"

definition py_range :: "int \<Rightarrow> int \<Rightarrow> int \<Rightarrow> int list" where
  "py_range start stop step = map (\<lambda>i. start + int i * step) [0..<range_len start stop step]"

definition slice_positions :: "pyslice \<Rightarrow> nat \<Rightarrow> error + nat list" where
  "slice_positions sl len =
     (case slice_adjust sl (int len) of
        Inl e \<Rightarrow> Inl e
      | Inr (start, stop, step) \<Rightarrow> Inr (map nat (py_range start stop step)))"

definition py_getslice :: "'a list \<Rightarrow> pyslice \<Rightarrow> error + 'a list" where
  "py_getslice xs sl =
     (case slice_positions sl (length xs) of
        Inl e \<Rightarrow> Inl e
      | Inr ps \<Rightarrow> Inr (map (\<lambda>p. xs ! p) ps))"

section \<open>The labeled array \<^verbatim>\<open>dnpData\<close>\<close>

record ('a, 'c) dnpData =
  version :: string
  "values" :: "'a ndarray"
  coords :: "'c list list"
  dims :: "string list"
  attrs :: "(string \<times> string) list"
  proc_attrs :: "(string \<times> (string \<times> string) list) list"

text \<open>
  \<^verbatim>\<open>__init__(self, values, coords, dims, attrs, procList)\<close> assigns its arguments to the
  attributes; \<^verbatim>\<open>procList\<close> is not used and \<^verbatim>\<open>proc_attrs\<close> starts empty. The body has no
  \<^verbatim>\<open>raise\<close> and calls nothing that raises.
\<close>

definition dnpData_init ::
  "'a ndarray \<Rightarrow> 'c list list \<Rightarrow> string list \<Rightarrow> (string \<times> string) list
     \<Rightarrow> (string \<times> (string \<times> string) list) list \<Rightarrow> ('a, 'c) dnpData" where
  "dnpData_init vals crds dms ats procList =
     \<lparr>version = ''1.0'', values = vals, coords = crds, dims = dms, attrs = ats,
      proc_attrs = []\<rparr>"

text \<open>
  The core invariant of the specification, in its words: \<^verbatim>\<open>len(dims) == len(coords) ==
  values.ndim\<close> and \<^verbatim>\<open>len(coords[i]) == values.shape[i]\<close> for every axis \<open>i\<close>.
\<close>

definition core_invariant :: "('a, 'c) dnpData \<Rightarrow> bool" where
  "core_invariant d \<longleftrightarrow>
     length (dims d) = length (coords d) \<and> length (coords d) = ndim (values d) \<and>
     list_all (\<lambda>i. length (coords d ! i) = shape (values d) ! i) [0..<length (coords d)]"

subsection \<open>Calls and their outcomes\<close>

text \<open>
  What a call leaves behind: the lines it printed, and either the exception it raised or
  the value it returned (\<open>None\<close> is Python's \<^verbatim>\<open>None\<close>). The methods of this kind work on
  \<^verbatim>\<open>deepcopy(self)\<close> and assign to the copy only, so the receiver is the unchanged argument.
\<close>

type_synonym 'r outcome = "string list \<times> (error + 'r option)"

definition returns :: "'r \<Rightarrow> 'r outcome" where
  "returns r = ([], Inr (Some r))"

definition raises :: "error \<Rightarrow> 'r outcome" where
  "raises e = ([], Inl e)"

subsection \<open>Reductions\<close>

text \<open>
  A method that mutates its receiver returns the exception it raised, if any, together
  with the receiver as the call left it: statements before the raising one have taken
  effect.
\<close>

type_synonym 's mutation = "error option \<times> 's"

text \<open>\<^verbatim>\<open>list.pop(i)\<close> with its range check.\<close>

definition py_pop :: "nat \<Rightarrow> 'a list \<Rightarrow> error + 'a list" where
  "py_pop i xs = (if i < length xs then Inr (pop_at i xs) else Inl (IndexError ''pop index out of range''))"

text \<open>
  \<^verbatim>\<open>sum(self, axesLabel)\<close>: the position of the label, the sum of the buffer along it, then
  the label and its coordinate vector are popped.
\<close>

definition dnpData_sum ::
  "(('a::monoid_add), 'c) dnpData \<Rightarrow> string \<Rightarrow> ('a, 'c) dnpData mutation" where
  "dnpData_sum self axesLabel =
     (case py_index (dims self) axesLabel of
        Inl e \<Rightarrow> (Some e, self)
      | Inr index \<Rightarrow>
          (case np_sum (values self) index of
             Inl e \<Rightarrow> (Some e, self)
           | Inr v \<Rightarrow>
               (let self1 = self\<lparr>values := v\<rparr>;
                    self2 = self1\<lparr>dims := pop_at index (dims self1)\<rparr>
                in case py_pop index (coords self2) of
                     Inl e \<Rightarrow> (Some e, self2)
                   | Inr cs \<Rightarrow> (None, self2\<lparr>coords := cs\<rparr>))))"

text \<open>
  \<^verbatim>\<open>amax(self, dim)\<close> works on a copy: the label and its coordinate vector are popped, then
  the maximum along the axis is taken; the copy is returned.
\<close>

definition dnpData_amax ::
  "(('a::linorder), 'c) dnpData \<Rightarrow> string \<Rightarrow> error + ('a, 'c) dnpData" where
  "dnpData_amax self dm =
     (case py_index (dims self) dm of
        Inl e \<Rightarrow> Inl e
      | Inr index \<Rightarrow>
          (case py_pop index (coords self) of
             Inl e \<Rightarrow> Inl e
           | Inr cs \<Rightarrow>
               (case np_amax (values self) index of
                  Inl e \<Rightarrow> Inl e
                | Inr v \<Rightarrow>
                    Inr (self\<lparr>dims := pop_at index (dims self), coords := cs, values := v\<rparr>))))"

subsection \<open>Indexing\<close>

text \<open>
  The subscript of \<^verbatim>\<open>A[...]\<close> is a tuple of objects: strings, integers and slices.
\<close>

datatype token = TokStr string | TokInt int | TokSlice pyslice

text \<open>\<^verbatim>\<open>index[0::2]\<close>; \<^verbatim>\<open>index[1::2]\<close> is \<open>every_other (drop 1 index)\<close>.\<close>

fun every_other :: "'a list \<Rightarrow> 'a list" where
  "every_other [] = []"
| "every_other [x] = [x]"
| "every_other (x # y # rest) = x # every_other rest"

text \<open>
  What \<^verbatim>\<open>__getitem__\<close> appends to \<^verbatim>\<open>indices\<close> for a selector: \<^verbatim>\<open>slice(-1, None)\<close> for -1,
  \<^verbatim>\<open>slice(k, k + 1)\<close> for another integer, and the selector itself otherwise. A selector
  that is not a slice (\<open>None\<close> here) is rejected by numpy when the tuple is used.
\<close>

fun resolve :: "token \<Rightarrow> pyslice option" where
  "resolve (TokInt k) =
     (if k = - 1 then Some (Slice (Some (- 1)) None None)
      else Some (Slice (Some k) (Some (k + 1)) None))"
| "resolve (TokSlice sl) = Some sl"
| "resolve (TokStr s) = None"

text \<open>The loop over \<^verbatim>\<open>enumerate(self.dims)\<close> that builds \<^verbatim>\<open>indices\<close>.\<close>

fun build_indices ::
  "'c list list \<Rightarrow> token list \<Rightarrow> token list \<Rightarrow> (nat \<times> string) list
     \<Rightarrow> error + pyslice option list" where
  "build_indices crds indexing_labels indexing_list [] = Inr []"
| "build_indices crds indexing_labels indexing_list ((axes_ix, axes_label) # rest) =
     (case index_of indexing_labels (TokStr axes_label) of
        Some ix \<Rightarrow>
          (case build_indices crds indexing_labels indexing_list rest of
             Inl e \<Rightarrow> Inl e
           | Inr others \<Rightarrow> Inr (resolve (indexing_list ! ix) # others))
      | None \<Rightarrow>
          if axes_ix < length crds
          then (case build_indices crds indexing_labels indexing_list rest of
                  Inl e \<Rightarrow> Inl e
                | Inr others \<Rightarrow>
                    Inr (Some (Slice (Some 0) (Some (int (length (crds ! axes_ix)))) None) # others))
          else Inl (IndexError ''list index out of range''))"

text \<open>
  The positions each entry of the tuple selects along its axis; axes beyond the tuple are
  taken whole, and a tuple longer than the rank is an error.
\<close>

fun axis_positions :: "pyslice option list \<Rightarrow> nat list \<Rightarrow> error + nat list list" where
  "axis_positions [] sh = Inr (map (\<lambda>n. [0..<n]) sh)"
| "axis_positions (ix # ixs) [] = Inl (IndexError ''too many indices for array'')"
| "axis_positions (None # ixs) (n # sh) =
     Inl (IndexError ''only integers, slices, ellipsis, newaxis and integer or boolean arrays are valid indices'')"
| "axis_positions (Some sl # ixs) (n # sh) =
     (case slice_positions sl n of
        Inl e \<Rightarrow> Inl e
      | Inr ps \<Rightarrow>
          (case axis_positions ixs sh of
             Inl e \<Rightarrow> Inl e
           | Inr pss \<Rightarrow> Inr (ps # pss)))"

text \<open>\<^verbatim>\<open>a[indices]\<close> for a tuple of slices.\<close>

definition np_getitem :: "'a ndarray \<Rightarrow> pyslice option list \<Rightarrow> error + 'a ndarray" where
  "np_getitem a ixs =
     (case axis_positions ixs (shape a) of
        Inl e \<Rightarrow> Inl e
      | Inr pss \<Rightarrow>
          Inr (tabulate (map length pss) (\<lambda>idx. get a (map2 (\<lambda>ps i. ps ! i) pss idx))))"

text \<open>The loop \<^verbatim>\<open>out.coords[ix] = out.coords[ix][indices[ix]]\<close> over \<^verbatim>\<open>range(len(out.coords))\<close>.\<close>

fun slice_coords :: "'c list list \<Rightarrow> pyslice option list \<Rightarrow> error + 'c list list" where
  "slice_coords [] ixs = Inr []"
| "slice_coords (c # cs) [] = Inl (IndexError ''tuple index out of range'')"
| "slice_coords (c # cs) (None # ixs) = Inl (TypeError ''list indices must be integers or slices'')"
| "slice_coords (c # cs) (Some sl # ixs) =
     (case py_getslice c sl of
        Inl e \<Rightarrow> Inl e
      | Inr c' \<Rightarrow>
          (case slice_coords cs ixs of
             Inl e \<Rightarrow> Inl e
           | Inr cs' \<Rightarrow> Inr (c' # cs')))"

text \<open>
  \<^verbatim>\<open>__getitem__(self, index)\<close>: an odd number of tokens prints a line and returns \<^verbatim>\<open>None\<close>;
  otherwise the buffer and the coordinate vectors of a deep copy are sliced with the same
  tuple, and the copy is returned.
\<close>

definition dnpData_getitem :: "('a, 'c) dnpData \<Rightarrow> token list \<Rightarrow> ('a, 'c) dnpData outcome" where
  "dnpData_getitem self index =
     (if length index mod 2 = 1 then ([''invalid indexing''], Inr None)
      else
        (let indexing_labels = every_other index;
             indexing_list = every_other (drop 1 index)
         in case build_indices (coords self) indexing_labels indexing_list
                   (zip [0..<length (dims self)] (dims self)) of
              Inl e \<Rightarrow> raises e
            | Inr indices_tuple \<Rightarrow>
                (case np_getitem (values self) indices_tuple of
                   Inl e \<Rightarrow> raises e
                 | Inr v \<Rightarrow>
                     (case slice_coords (coords self) indices_tuple of
                        Inl e \<Rightarrow> raises e
                      | Inr cs \<Rightarrow> returns (self\<lparr>values := v, coords := cs\<rparr>)))))"

subsection \<open>Selectors as pairs\<close>

text \<open>
  The subscripts the indexing contract is about: pairs of a dimension name and a selector
  that is an integer or a slice, written in the subscript one after the other.
\<close>

datatype selector = SelInt int | SelSlice pyslice

fun selector_token :: "selector \<Rightarrow> token" where
  "selector_token (SelInt k) = TokInt k"
| "selector_token (SelSlice sl) = TokSlice sl"

fun tokens_of :: "(string \<times> selector) list \<Rightarrow> token list" where
  "tokens_of [] = []"
| "tokens_of ((d, s) # rest) = TokStr d # selector_token s # tokens_of rest"

text \<open>
  The slice the contract assigns to a dimension of length \<open>n\<close>: the full range when the
  dimension is not named, \<open>[k, k + 1)\<close> for an integer \<open>k\<close>, from the last element to the end
  for -1, and a slice itself. The first pair that names the dimension counts.
\<close>

definition selected_slice :: "(string \<times> selector) list \<Rightarrow> string \<Rightarrow> nat \<Rightarrow> pyslice" where
  "selected_slice ps d n =
     (case map_of ps d of
        None \<Rightarrow> Slice (Some 0) (Some (int n)) None
      | Some (SelInt k) \<Rightarrow>
          if k = - 1 then Slice (Some (- 1)) None None else Slice (Some k) (Some (k + 1)) None
      | Some (SelSlice sl) \<Rightarrow> sl)"

text \<open>Python has no slicing with step 0: such a slice raises \<^verbatim>\<open>ValueError\<close> when used.\<close>

fun nonzero_step :: "selector \<Rightarrow> bool" where
  "nonzero_step (SelSlice (Slice a b (Some c))) = (c \<noteq> 0)"
| "nonzero_step _ = True"

text \<open>The positions a slice selects, for use where the step is known not to be 0.\<close>

definition positions_of :: "pyslice \<Rightarrow> nat \<Rightarrow> nat list" where
  "positions_of sl n = (case slice_positions sl n of Inl e \<Rightarrow> [] | Inr ps \<Rightarrow> ps)"

subsection \<open>Reordering, sorting and concatenation\<close>

text \<open>\<^verbatim>\<open>[xs[ix] for ix in ixs]\<close>, with the range check of each read.\<close>

definition py_select :: "'a list \<Rightarrow> nat list \<Rightarrow> error + 'a list" where
  "py_select xs ixs =
     (if list_all (\<lambda>ix. ix < length xs) ixs then Inr (map (\<lambda>ix. xs ! ix) ixs)
      else Inl (IndexError ''list index out of range''))"

text \<open>
  \<^verbatim>\<open>sort(self)\<close>: the positions of the dimensions, sorted by name (Python's \<^verbatim>\<open>sorted\<close> is
  stable, as \<open>sort_key\<close> is), then the coordinate vectors, the names and the axes of the
  buffer are taken in that order.
\<close>

definition dnpData_sort :: "('a, 'c) dnpData \<Rightarrow> ('a, 'c) dnpData mutation" where
  "dnpData_sort self =
     (let ix_sort = sort_key (\<lambda>k. dims self ! k) [0..<length (dims self)]
      in case py_select (coords self) ix_sort of
           Inl e \<Rightarrow> (Some e, self)
         | Inr cs \<Rightarrow>
             (let self1 = self\<lparr>coords := cs\<rparr>;
                  self2 = self1\<lparr>dims := map (\<lambda>ix. dims self1 ! ix) ix_sort\<rparr>
              in case np_transpose (values self2) ix_sort of
                   Inl e \<Rightarrow> (Some e, self2)
                 | Inr v \<Rightarrow> (None, self2\<lparr>values := v\<rparr>)))"

text \<open>
  The argument of \<^verbatim>\<open>reorder\<close>: a string and a tuple are turned into a list, a list is taken
  as it is, anything else prints a line and returns.
\<close>

datatype dims_arg = DimStr string | DimTuple "string list" | DimList "string list" | DimOther

text \<open>The loop that appends the labels of \<^verbatim>\<open>self.dims\<close> missing from \<^verbatim>\<open>dims\<close>.\<close>

fun append_missing :: "string list \<Rightarrow> string list \<Rightarrow> string list" where
  "append_missing dms [] = dms"
| "append_missing dms (label # rest) =
     (if label \<in> set dms then append_missing dms rest
      else append_missing (dms @ [label]) rest)"

text \<open>\<^verbatim>\<open>[self.dims.index(k) for k in dims]\<close>.\<close>

fun index_all :: "string list \<Rightarrow> string list \<Rightarrow> error + nat list" where
  "index_all xs [] = Inr []"
| "index_all xs (k # ks) =
     (case py_index xs k of
        Inl e \<Rightarrow> Inl e
      | Inr i \<Rightarrow> (case index_all xs ks of Inl e \<Rightarrow> Inl e | Inr is \<Rightarrow> Inr (i # is)))"

definition reorder_list ::
  "('a, 'c) dnpData \<Rightarrow> string list \<Rightarrow> string list \<times> ('a, 'c) dnpData mutation" where
  "reorder_list self dms =
     (case (if sort dms \<noteq> sort (dims self)
            then (case find (\<lambda>label. label \<notin> set (dims self)) dms of
                    Some label \<Rightarrow> Inl label
                  | None \<Rightarrow> Inr (append_missing dms (dims self)))
            else Inr dms) of
        Inl label \<Rightarrow> ([[CHR 0x27] @ label @ [CHR 0x27] @ '' not in axes labels''], (None, self))
      | Inr dms' \<Rightarrow>
          (case index_all (dims self) dms' of
             Inl e \<Rightarrow> ([], (Some e, self))
           | Inr ix_reorder \<Rightarrow>
               (case py_select (coords self) ix_reorder of
                  Inl e \<Rightarrow> ([], (Some e, self))
                | Inr cs \<Rightarrow>
                    (let self1 = self\<lparr>coords := cs\<rparr>;
                         self2 = self1\<lparr>dims := map (\<lambda>ix. dims self1 ! ix) ix_reorder\<rparr>
                     in case np_transpose (values self2) ix_reorder of
                          Inl e \<Rightarrow> ([], (Some e, self2))
                        | Inr v \<Rightarrow> ([], (None, self2\<lparr>values := v\<rparr>))))))"

fun dnpData_reorder ::
  "('a, 'c) dnpData \<Rightarrow> dims_arg \<Rightarrow> string list \<times> ('a, 'c) dnpData mutation" where
  "dnpData_reorder self (DimStr s) = reorder_list self [s]"
| "dnpData_reorder self (DimTuple t) = reorder_list self t"
| "dnpData_reorder self (DimList l) = reorder_list self l"
| "dnpData_reorder self DimOther = ([''dims must be a list''], (None, self))"

text \<open>\<^verbatim>\<open>len(self, axesLabel)\<close>: the length of the buffer along the named dimension.\<close>

definition dnpData_len :: "('a, 'c) dnpData \<Rightarrow> string \<Rightarrow> error + nat" where
  "dnpData_len self axesLabel =
     (case py_index (dims self) axesLabel of
        Inl e \<Rightarrow> Inl e
      | Inr index \<Rightarrow>
          if index < ndim (values self) then Inr (shape (values self) ! index)
          else Inl (IndexError ''tuple index out of range''))"

text \<open>\<^verbatim>\<open>getAxes(self, axesLabel)\<close>: the coordinate vector of the named dimension.\<close>

definition dnpData_getAxes :: "('a, 'c) dnpData \<Rightarrow> string \<Rightarrow> error + 'c list" where
  "dnpData_getAxes self axesLabel =
     (case py_index (dims self) axesLabel of
        Inl e \<Rightarrow> Inl e
      | Inr index \<Rightarrow>
          if index < length (coords self) then Inr (coords self ! index)
          else Inl (IndexError ''list index out of range''))"

text \<open>
  \<^verbatim>\<open>concatenateAlong(self, newData, axesLabel)\<close> mutates both objects, which the model
  takes to be two distinct objects. The result is what \<^verbatim>\<open>reorder\<close> printed, the exception
  raised if any, and the two objects as the call leaves them.
\<close>

record ('a, 'c) concatenated =
  printed :: "string list"
  raised :: "error option"
  receiver :: "('a, 'c) dnpData"
  operand :: "('a, 'c) dnpData"

definition dnpData_concatenateAlong ::
  "('a, 'c) dnpData \<Rightarrow> ('a, 'c) dnpData \<Rightarrow> string \<Rightarrow> ('a, 'c) concatenated" where
  "dnpData_concatenateAlong self newData axesLabel =
     (let reorderLabels = dims self
      in case dnpData_sort self of
           (Some e, self1) \<Rightarrow>
             \<lparr>printed = [], raised = Some e, receiver = self1, operand = newData\<rparr>
         | (None, self1) \<Rightarrow>
             (case dnpData_sort newData of
                (Some e, newData1) \<Rightarrow>
                  \<lparr>printed = [], raised = Some e, receiver = self1, operand = newData1\<rparr>
              | (None, newData1) \<Rightarrow>
                  if dims self1 \<noteq> dims newData1
                  then \<lparr>printed = [], raised = Some (ValueError ''dims do not match''),
                        receiver = self1, operand = newData1\<rparr>
                  else
                    (case py_index (dims self1) axesLabel of
                       Inl e \<Rightarrow>
                         \<lparr>printed = [], raised = Some e, receiver = self1, operand = newData1\<rparr>
                     | Inr index \<Rightarrow>
                         (case np_concatenate (values self1) (values newData1) index of
                            Inl e \<Rightarrow>
                              \<lparr>printed = [], raised = Some e, receiver = self1,
                               operand = newData1\<rparr>
                          | Inr v \<Rightarrow>
                              (let self2 = self1\<lparr>values := v\<rparr>
                               in if index < length (coords self2) \<and>
                                     index < length (coords newData1)
                                  then
                                    (let self3 = self2\<lparr>coords :=
                                           (coords self2)[index :=
                                              coords self2 ! index @ coords newData1 ! index]\<rparr>
                                     in case dnpData_reorder self3 (DimList reorderLabels) of
                                          (out, (e, self4)) \<Rightarrow>
                                            \<lparr>printed = out, raised = e, receiver = self4,
                                             operand = newData1\<rparr>)
                                  else \<lparr>printed = [],
                                        raised = Some (IndexError ''list index out of range''),
                                        receiver = self2, operand = newData1\<rparr>)))))"

subsection \<open>Arithmetic operators\<close>

text \<open>
  The right operand of an operator: a Python number that is not a \<^verbatim>\<open>bool\<close>, a \<^verbatim>\<open>bool\<close>, a
  numpy array, another \<^verbatim>\<open>dnpData\<close>, or an object of any other type (with the text that
  \<^verbatim>\<open>print(type(data))\<close> shows for it). A scalar has the element type of the buffer. Only
  operands of the second and the last kind reach the \<^verbatim>\<open>print\<close>.
\<close>

datatype ('a, 'c) operand =
    Scalar 'a
  | PyBool bool
  | NdArray "'a ndarray"
  | DnpData "('a, 'c) dnpData"
  | Other string

fun type_repr :: "('a, 'c) operand \<Rightarrow> string" where
  "type_repr (Scalar _) = ''<class 'number'>''"
| "type_repr (PyBool _) = ''<class 'bool'>''"
| "type_repr (NdArray _) = ''<class 'numpy.ndarray'>''"
| "type_repr (DnpData _) = ''<class 'dnpData'>''"
| "type_repr (Other t) = t"

text \<open>The operand types the \<^verbatim>\<open>isinstance\<close> chain of an operator accepts.\<close>

fun supported :: "('a, 'c) operand \<Rightarrow> bool" where
  "supported (Scalar _) = True"
| "supported (NdArray _) = True"
| "supported (DnpData _) = True"
| "supported _ = False"

definition not_supported :: "('a, 'c) operand \<Rightarrow> 'r outcome" where
  "not_supported x = ([''Cannot add, type not supported:'', type_repr x], Inr None)"

definition set_values ::
  "('a, 'c) dnpData \<Rightarrow> error + 'a ndarray \<Rightarrow> ('a, 'c) dnpData outcome" where
  "set_values newData r =
     (case r of Inl e \<Rightarrow> raises e | Inr v \<Rightarrow> returns (newData\<lparr>values := v\<rparr>))"

fun dnpData_add ::
  "(('a::plus), 'c) dnpData \<Rightarrow> ('a, 'c) operand \<Rightarrow> ('a, 'c) dnpData outcome" where
  "dnpData_add self (Scalar s) = returns (self\<lparr>values := map_nd (\<lambda>x. x + s) (values self)\<rparr>)"
| "dnpData_add self (NdArray b) = set_values self (np_binop (+) (values self) b)"
| "dnpData_add self (DnpData d) = set_values self (np_binop (+) (values self) (values d))"
| "dnpData_add self x = not_supported x"

fun dnpData_mul ::
  "(('a::times), 'c) dnpData \<Rightarrow> ('a, 'c) operand \<Rightarrow> ('a, 'c) dnpData outcome" where
  "dnpData_mul self (Scalar s) = returns (self\<lparr>values := map_nd (\<lambda>x. x * s) (values self)\<rparr>)"
| "dnpData_mul self (NdArray b) = set_values self (np_binop (*) (values self) b)"
| "dnpData_mul self (DnpData d) = set_values self (np_binop (*) (values self) (values d))"
| "dnpData_mul self x = not_supported x"

text \<open>numpy's elementwise power is a parameter \<open>pw\<close> of the model of \<^verbatim>\<open>__pow__\<close>.\<close>

fun dnpData_pow ::
  "('a \<Rightarrow> 'a \<Rightarrow> 'a) \<Rightarrow> ('a, 'c) dnpData \<Rightarrow> ('a, 'c) operand \<Rightarrow> ('a, 'c) dnpData outcome" where
  "dnpData_pow pw self (Scalar s) = returns (self\<lparr>values := map_nd (\<lambda>x. pw x s) (values self)\<rparr>)"
| "dnpData_pow pw self (NdArray b) = set_values self (np_binop pw (values self) b)"
| "dnpData_pow pw self (DnpData d) = set_values self (np_binop pw (values self) (values d))"
| "dnpData_pow pw self x = not_supported x"

fun dnpData_sub ::
  "(('a::minus), 'c) dnpData \<Rightarrow> ('a, 'c) operand \<Rightarrow> ('a, 'c) dnpData outcome" where
  "dnpData_sub self (Scalar s) = returns (self\<lparr>values := map_nd (\<lambda>x. x - s) (values self)\<rparr>)"
| "dnpData_sub self (NdArray b) = set_values self (np_binop (-) (values self) b)"
| "dnpData_sub self (DnpData d) = set_values self (np_binop (-) (values self) (values d))"
| "dnpData_sub self x = not_supported x"

text \<open>
  \<^verbatim>\<open>__rsub__\<close>: the scalar branch reads \<^verbatim>\<open>newData.data\<close>. A \<^verbatim>\<open>dnpData\<close> object has the
  attributes \<^verbatim>\<open>version\<close>, \<^verbatim>\<open>values\<close>, \<^verbatim>\<open>coords\<close>, \<^verbatim>\<open>dims\<close>, \<^verbatim>\<open>attrs\<close> and \<^verbatim>\<open>proc_attrs\<close>
  and the class defines no \<^verbatim>\<open>data\<close>, so the read raises \<^verbatim>\<open>AttributeError\<close>.
\<close>

fun dnpData_rsub ::
  "(('a::minus), 'c) dnpData \<Rightarrow> ('a, 'c) operand \<Rightarrow> ('a, 'c) dnpData outcome" where
  "dnpData_rsub self (Scalar s) =
     raises (AttributeError ''dnpData object has no attribute data'')"
| "dnpData_rsub self (NdArray b) = set_values self (np_binop (-) b (values self))"
| "dnpData_rsub self (DnpData d) = set_values self (np_binop (-) (values d) (values self))"
| "dnpData_rsub self x = not_supported x"

definition dnpData_radd ::
  "(('a::plus), 'c) dnpData \<Rightarrow> ('a, 'c) operand \<Rightarrow> ('a, 'c) dnpData outcome" where
  "dnpData_radd self x = dnpData_add self x"

definition dnpData_rmul ::
  "(('a::times), 'c) dnpData \<Rightarrow> ('a, 'c) operand \<Rightarrow> ('a, 'c) dnpData outcome" where
  "dnpData_rmul self x = dnpData_mul self x"

section \<open>The workspace \<^verbatim>\<open>dnpdata_collection\<close>\<close>

text \<open>
  The arguments of the constructor are Python objects: a string, a \<^verbatim>\<open>dnpData\<close>, a \<^verbatim>\<open>dict\<close>
  (insertion-ordered, here with string keys) or anything else.
\<close>

datatype ('a, 'c) pyobj =
    PyStr string
  | PyData "('a, 'c) dnpData"
  | PyDict "(string \<times> ('a, 'c) pyobj) list"
  | PyOther string

type_synonym ('a, 'c) pydict = "(string \<times> ('a, 'c) pyobj) list"

definition dict_getitem :: "('a, 'c) pydict \<Rightarrow> string \<Rightarrow> error + ('a, 'c) pyobj" where
  "dict_getitem d k = (case map_of d k of None \<Rightarrow> Inl (KeyError k) | Some v \<Rightarrow> Inr v)"

definition dict_setitem :: "('a, 'c) pydict \<Rightarrow> string \<Rightarrow> ('a, 'c) pyobj \<Rightarrow> ('a, 'c) pydict" where
  "dict_setitem d k v =
     (if k \<in> set (map fst d) then map (\<lambda>(k', v'). if k' = k then (k', v) else (k', v')) d
      else d @ [(k, v)])"

record ('a, 'c) dnpdata_collection =
  processing_buffer :: string
  data_dict :: "('a, 'c) pydict"

fun is_dnpData_or_dict :: "('a, 'c) pyobj \<Rightarrow> bool" where
  "is_dnpData_or_dict (PyData _) = True"
| "is_dnpData_or_dict (PyDict _) = True"
| "is_dnpData_or_dict _ = False"

text \<open>The loop over the keys of a \<^verbatim>\<open>dict\<close> argument; it stops at the first bad value.\<close>

fun copy_entries ::
  "('a, 'c) pydict \<Rightarrow> ('a, 'c) pydict \<Rightarrow> error + ('a, 'c) pydict" where
  "copy_entries acc [] = Inr acc"
| "copy_entries acc ((key, v) # rest) =
     (if is_dnpData_or_dict v then copy_entries (dict_setitem acc key v) rest
      else Inl (TypeError ''Each type in dict must be dnpData or dict''))"

text \<open>
  \<^verbatim>\<open>dnpdata_collection.__init__(self, *args)\<close>: the first two statements set the
  processing buffer to \<^verbatim>\<open>'proc'\<close> and the dictionary to \<^verbatim>\<open>{}\<close>; \<open>init_args\<close> is the
  case distinction on the arguments that follows. With one \<^verbatim>\<open>dnpData\<close> argument the body
  is the expression statement \<^verbatim>\<open>self.__data_dict['raw'] == dnpData\<close>: it reads the key
  \<^verbatim>\<open>'raw'\<close> and compares; nothing is stored.
\<close>

fun init_args ::
  "('a, 'c) dnpdata_collection \<Rightarrow> ('a, 'c) pyobj list \<Rightarrow> error + ('a, 'c) dnpdata_collection" where
  "init_args self [] = Inr self"
| "init_args self [PyData d] =
     (case dict_getitem (data_dict self) ''raw'' of
        Inl e \<Rightarrow> Inl e
      | Inr _ \<Rightarrow> Inr self)"
| "init_args self [PyDict dct] =
     (case copy_entries (data_dict self) dct of
        Inl e \<Rightarrow> Inl e
      | Inr dd \<Rightarrow> Inr (self\<lparr>data_dict := dd\<rparr>))"
| "init_args self [_] = Inl (TypeError ''Argument must be type dnpData'')"
| "init_args self [PyStr key, v] =
     (if is_dnpData_or_dict v
      then Inr (self\<lparr>data_dict := dict_setitem (data_dict self) key v\<rparr>)
      else Inl (TypeError ''If two arguments, first argument must be str and 2nd argument must be dnpData or dict''))"
| "init_args self [_, _] =
     Inl (TypeError ''If two arguments, first argument must be str and 2nd argument must be dnpData or dict'')"
| "init_args self _ = Inl (TypeError ''Arguments not understood'')"

definition dnpdata_collection_init ::
  "('a, 'c) pyobj list \<Rightarrow> error + ('a, 'c) dnpdata_collection" where
  "dnpdata_collection_init args =
     init_args \<lparr>processing_buffer = ''proc'', data_dict = []\<rparr> args"

definition create_workspace :: "('a, 'c) pyobj list \<Rightarrow> error + ('a, 'c) dnpdata_collection" where
  "create_workspace args = dnpdata_collection_init args"

section \<open>The axis \<^verbatim>\<open>nddata_axis\<close>\<close>

text \<open>
  Numbers as the axis code tells them apart with \<^verbatim>\<open>isinstance(b, (int, float))\<close>: Python's
  \<^verbatim>\<open>int\<close> and \<^verbatim>\<open>float\<close>, and the numpy scalars \<^verbatim>\<open>np.int64\<close> (not an \<^verbatim>\<open>int\<close>) and
  \<^verbatim>\<open>np.float64\<close> (a subclass of \<^verbatim>\<open>float\<close>) that indexing an array returns. Floating-point
  numbers are modelled by the reals they denote: rounding is not part of the model, and
  64-bit integers do not overflow in it.
\<close>

datatype num = PyInt int | PyFloat real | NpInt64 int | NpFloat64 real

fun is_int_or_float :: "num \<Rightarrow> bool" where
  "is_int_or_float (NpInt64 _) = False"
| "is_int_or_float _ = True"

fun is_integer :: "num \<Rightarrow> bool" where
  "is_integer (PyInt _) = True"
| "is_integer (NpInt64 _) = True"
| "is_integer _ = False"

fun int_value :: "num \<Rightarrow> int" where
  "int_value (PyInt i) = i"
| "int_value (NpInt64 i) = i"
| "int_value (PyFloat r) = \<lfloor>r\<rfloor>"
| "int_value (NpFloat64 r) = \<lfloor>r\<rfloor>"

fun real_value :: "num \<Rightarrow> real" where
  "real_value (PyInt i) = real_of_int i"
| "real_value (NpInt64 i) = real_of_int i"
| "real_value (PyFloat r) = r"
| "real_value (NpFloat64 r) = r"

text \<open>A one-dimensional numpy array of dtype \<^verbatim>\<open>int64\<close> or \<^verbatim>\<open>float64\<close>.\<close>

datatype nparray = IntArray "int list" | FloatArray "real list"

fun np_size :: "nparray \<Rightarrow> nat" where
  "np_size (IntArray xs) = length xs"
| "np_size (FloatArray xs) = length xs"

fun np_reals :: "nparray \<Rightarrow> real list" where
  "np_reals (IntArray xs) = map real_of_int xs"
| "np_reals (FloatArray xs) = xs"

text \<open>\<^verbatim>\<open>a[i]\<close> for an integer \<open>i\<close>: negative positions count from the end.\<close>

definition wrap_index :: "int \<Rightarrow> nat \<Rightarrow> error + nat" where
  "wrap_index i n =
     (let j = (if i < 0 then i + int n else i)
      in if 0 \<le> j \<and> j < int n then Inr (nat j) else Inl (IndexError ''index out of bounds''))"

fun np_item :: "nparray \<Rightarrow> int \<Rightarrow> error + num" where
  "np_item (IntArray xs) i =
     (case wrap_index i (length xs) of Inl e \<Rightarrow> Inl e | Inr j \<Rightarrow> Inr (NpInt64 (xs ! j)))"
| "np_item (FloatArray xs) i =
     (case wrap_index i (length xs) of Inl e \<Rightarrow> Inl e | Inr j \<Rightarrow> Inr (NpFloat64 (xs ! j)))"

fun np_getslice :: "nparray \<Rightarrow> pyslice \<Rightarrow> error + nparray" where
  "np_getslice (IntArray xs) sl =
     (case py_getslice xs sl of Inl e \<Rightarrow> Inl e | Inr ys \<Rightarrow> Inr (IntArray ys))"
| "np_getslice (FloatArray xs) sl =
     (case py_getslice xs sl of Inl e \<Rightarrow> Inl e | Inr ys \<Rightarrow> Inr (FloatArray ys))"

text \<open>Sum and difference of two numpy scalars.\<close>

definition num_add :: "num \<Rightarrow> num \<Rightarrow> num" where
  "num_add x y =
     (if is_integer x \<and> is_integer y then NpInt64 (int_value x + int_value y)
      else NpFloat64 (real_value x + real_value y))"

definition num_sub :: "num \<Rightarrow> num \<Rightarrow> num" where
  "num_sub x y =
     (if is_integer x \<and> is_integer y then NpInt64 (int_value x - int_value y)
      else NpFloat64 (real_value x - real_value y))"

text \<open>
  \<^verbatim>\<open>np.arange(start, stop, step)\<close>: \<open>\<lceil>(stop - start) / step\<rceil>\<close> samples \<open>start + i * step\<close>,
  of dtype \<^verbatim>\<open>int64\<close> when the three arguments are integers. A zero step makes numpy raise;
  the class of that exception depends on the operand types, and the model calls it
  \<^verbatim>\<open>ZeroDivisionError\<close>.
\<close>

definition np_arange :: "num \<Rightarrow> num \<Rightarrow> num \<Rightarrow> error + nparray" where
  "np_arange start stop step =
     (if real_value step = 0 then Inl (ZeroDivisionError ''division by zero'')
      else
        (let n = nat \<lceil>(real_value stop - real_value start) / real_value step\<rceil>
         in if is_integer start \<and> is_integer stop \<and> is_integer step
            then Inr (IntArray (map (\<lambda>i. int_value start + int i * int_value step) [0..<n]))
            else Inr (FloatArray (map (\<lambda>i. real_value start + real i * real_value step) [0..<n]))))"

text \<open>
  \<^verbatim>\<open>np.r_[slice(start, stop, step)]\<close>: a missing start is 0 and a missing step is 1, then
  \<^verbatim>\<open>np.arange\<close>; \<^verbatim>\<open>np.arange\<close> with \<^verbatim>\<open>None\<close> for its stop counts from 0 to its first argument.
\<close>

definition np_r_slice :: "num option \<Rightarrow> num option \<Rightarrow> num option \<Rightarrow> error + nparray" where
  "np_r_slice start stop step =
     (let start' = (case start of None \<Rightarrow> PyInt 0 | Some x \<Rightarrow> x);
          step' = (case step of None \<Rightarrow> PyInt 1 | Some x \<Rightarrow> x)
      in case stop of
           None \<Rightarrow> np_arange (PyInt 0) start' step'
         | Some stop' \<Rightarrow> np_arange start' stop' step')"

text \<open>
  \<^verbatim>\<open>np.allclose(a, b)\<close> with the default tolerances \<^verbatim>\<open>rtol = 1e-05\<close> and \<^verbatim>\<open>atol = 1e-08\<close>:
  every \<open>|a - b| \<le> atol + rtol * |b|\<close>, after broadcasting (equal lengths, or one array of
  length 1); other lengths do not broadcast.
\<close>

definition isclose :: "real \<Rightarrow> real \<Rightarrow> bool" where
  "isclose a b \<longleftrightarrow> \<bar>a - b\<bar> \<le> 1 / 10 ^ 8 + 1 / 10 ^ 5 * \<bar>b\<bar>"

definition np_allclose :: "nparray \<Rightarrow> nparray \<Rightarrow> error + bool" where
  "np_allclose a b =
     (let xs = np_reals a; ys = np_reals b
      in if length xs = length ys then Inr (list_all2 isclose xs ys)
         else if length ys = 1 then Inr (list_all (\<lambda>x. isclose x (ys ! 0)) xs)
         else if length xs = 1 then Inr (list_all (\<lambda>y. isclose (xs ! 0) y) ys)
         else Inl (ValueError ''operands could not be broadcast together''))"

text \<open>
  The attributes of an axis object. An attribute that no statement has assigned yet is
  \<open>None\<close>, and reading it raises \<^verbatim>\<open>AttributeError\<close>; \<open>attr_dim\<close> is \<^verbatim>\<open>__dim\<close>, a string;
  \<open>attr_start\<close>, \<open>attr_stop\<close> and
  \<open>attr_step\<close> are \<^verbatim>\<open>__start\<close>, \<^verbatim>\<open>__stop\<close> and \<^verbatim>\<open>__step\<close>, whose value may be Python's
  \<^verbatim>\<open>None\<close>; \<open>attr_array\<close>, \<open>attr_axis\<close> and \<open>attr_type\<close> are \<^verbatim>\<open>_array\<close>, \<^verbatim>\<open>_axis\<close> and
  \<^verbatim>\<open>_type\<close>.
\<close>

record nddata_axis =
  attr_dim :: string
  attr_start :: "num option option"
  attr_stop :: "num option option"
  attr_step :: "num option option"
  attr_array :: "nparray option"
  attr_axis :: "nparray option"
  attr_type :: "string option"

definition new_axis :: "string \<Rightarrow> nddata_axis" where
  "new_axis d =
     \<lparr>attr_dim = d, attr_start = None, attr_stop = None, attr_step = None, attr_array = None,
      attr_axis = None, attr_type = None\<rparr>"

definition getattr :: "'v option \<Rightarrow> string \<Rightarrow> error + 'v" where
  "getattr a name = (case a of None \<Rightarrow> Inl (AttributeError name) | Some v \<Rightarrow> Inr v)"

text \<open>The property setters store a value only when it is an \<^verbatim>\<open>int\<close> or a \<^verbatim>\<open>float\<close>.\<close>

definition set_start :: "nddata_axis \<Rightarrow> num \<Rightarrow> nddata_axis" where
  "set_start self b = (if is_int_or_float b then self\<lparr>attr_start := Some (Some b)\<rparr> else self)"

definition set_stop :: "nddata_axis \<Rightarrow> num \<Rightarrow> nddata_axis" where
  "set_stop self b = (if is_int_or_float b then self\<lparr>attr_stop := Some (Some b)\<rparr> else self)"

definition set_step :: "nddata_axis \<Rightarrow> num \<Rightarrow> nddata_axis" where
  "set_step self b = (if is_int_or_float b then self\<lparr>attr_step := Some (Some b)\<rparr> else self)"

text \<open>
  \<^verbatim>\<open>reduce(self)\<close> reads \<^verbatim>\<open>_array\<close>: its first sample, the difference of its first two
  samples and its last sample plus that difference; it compares the array with the
  progression of these three numbers and stores them when \<^verbatim>\<open>np.allclose\<close> says so.
\<close>

definition reduce :: "nddata_axis \<Rightarrow> error + nddata_axis" where
  "reduce self =
     (case attr_array self of
        None \<Rightarrow> Inl (ValueError ''No array to reduce'')
      | Some arr \<Rightarrow>
          (case np_item arr 0 of
             Inl e \<Rightarrow> Inl e
           | Inr start \<Rightarrow>
               (case np_item arr 1 of
                  Inl e \<Rightarrow> Inl e
                | Inr second \<Rightarrow>
                    (let step = num_sub second start
                     in case np_item arr (- 1) of
                          Inl e \<Rightarrow> Inl e
                        | Inr lst \<Rightarrow>
                            (let stop = num_add lst step
                             in case np_r_slice (Some start) (Some stop) (Some step) of
                                  Inl e \<Rightarrow> Inl e
                                | Inr progression \<Rightarrow>
                                    (case np_allclose arr progression of
                                       Inl e \<Rightarrow> Inl e
                                     | Inr close \<Rightarrow>
                                         if close
                                         then Inr (set_step (set_stop (set_start self start) stop) step)
                                         else Inl (ValueError ''Array must have evenly spaced values to be reduced'')))))))"

text \<open>The arguments after \<^verbatim>\<open>dim\<close>: an array, a slice, a number, or something else.\<close>

datatype axis_arg =
    ArgArray nparray
  | ArgSlice "num option" "num option" "num option"
  | ArgNum num
  | ArgOther string

fun is_number_arg :: "axis_arg \<Rightarrow> bool" where
  "is_number_arg (ArgNum x) = is_int_or_float x"
| "is_number_arg _ = False"

fun number_of :: "axis_arg \<Rightarrow> num" where
  "number_of (ArgNum x) = x"
| "number_of _ = PyInt 0"

text \<open>
  \<^verbatim>\<open>__init__(self, dim, *args)\<close>. With one array argument the array is stored in \<^verbatim>\<open>_axis\<close>,
  and \<^verbatim>\<open>reduce\<close> is tried; any exception of it is caught and \<^verbatim>\<open>_type\<close> is set instead.
  More than three arguments assign nothing.
\<close>

fun nddata_axis_init :: "string \<Rightarrow> axis_arg list \<Rightarrow> error + nddata_axis" where
  "nddata_axis_init d [] =
     Inr ((new_axis d)\<lparr>attr_start := Some None, attr_stop := Some None, attr_step := Some None\<rparr>)"
| "nddata_axis_init d [ArgArray coord] =
     (let self = (new_axis d)\<lparr>attr_axis := Some coord\<rparr>
      in case reduce self of
           Inl _ \<Rightarrow> Inr (self\<lparr>attr_type := Some ''ndarray''\<rparr>)
         | Inr self' \<Rightarrow> Inr self')"
| "nddata_axis_init d [ArgSlice a b c] =
     Inr ((new_axis d)\<lparr>attr_start := Some a, attr_stop := Some b, attr_step := Some c\<rparr>)"
| "nddata_axis_init d [coord] =
     (if is_number_arg coord
      then Inr ((new_axis d)\<lparr>attr_start := Some None, attr_stop := Some (Some (number_of coord)),
                            attr_step := Some None\<rparr>)
      else Inl (ValueError ''coord not understood''))"
| "nddata_axis_init d [start, stop] =
     (if is_number_arg start \<and> is_number_arg stop
      then Inr ((new_axis d)\<lparr>attr_start := Some (Some (number_of start)),
                            attr_stop := Some (Some (number_of stop)), attr_step := Some None\<rparr>)
      else Inl (TypeError ''coord not understood''))"
| "nddata_axis_init d [start, stop, step] =
     (if is_number_arg start \<and> is_number_arg stop \<and> is_number_arg step
      then Inr ((new_axis d)\<lparr>attr_start := Some (Some (number_of start)),
                            attr_stop := Some (Some (number_of stop)),
                            attr_step := Some (Some (number_of step))\<rparr>)
      else Inl (TypeError ''coord not understood''))"
| "nddata_axis_init d _ = Inr (new_axis d)"

text \<open>
  The property \<^verbatim>\<open>array\<close>: the cached \<^verbatim>\<open>_array\<close> when there is one, else the progression of
  \<^verbatim>\<open>self.start\<close>, \<^verbatim>\<open>self.stop\<close> and \<^verbatim>\<open>self.step\<close>, which is cached. The call returns the
  array and the axis with its cache. The setter stores an array in \<^verbatim>\<open>_array\<close>.
\<close>

definition array_get :: "nddata_axis \<Rightarrow> error + nparray \<times> nddata_axis" where
  "array_get self =
     (case attr_array self of
        Some a \<Rightarrow> Inr (a, self)
      | None \<Rightarrow>
          (case getattr (attr_start self) ''_nddata_axis__start'' of
             Inl e \<Rightarrow> Inl e
           | Inr start \<Rightarrow>
               (case getattr (attr_stop self) ''_nddata_axis__stop'' of
                  Inl e \<Rightarrow> Inl e
                | Inr stop \<Rightarrow>
                    (case getattr (attr_step self) ''_nddata_axis__step'' of
                       Inl e \<Rightarrow> Inl e
                     | Inr step \<Rightarrow>
                         (case np_r_slice start stop step of
                            Inl e \<Rightarrow> Inl e
                          | Inr a \<Rightarrow> Inr (a, self\<lparr>attr_array := Some a\<rparr>))))))"

definition array_set :: "nddata_axis \<Rightarrow> nparray \<Rightarrow> nddata_axis" where
  "array_set self b = self\<lparr>attr_array := Some b\<rparr>"

text \<open>\<^verbatim>\<open>__len__\<close> and \<^verbatim>\<open>__getitem__\<close> read the property \<^verbatim>\<open>array\<close>.\<close>

definition axis_len :: "nddata_axis \<Rightarrow> error + nat" where
  "axis_len self = (case array_get self of Inl e \<Rightarrow> Inl e | Inr (a, _) \<Rightarrow> Inr (np_size a))"

datatype subscript = Position int | Range pyslice

datatype item = Sample num | Samples nparray

fun axis_getitem :: "nddata_axis \<Rightarrow> subscript \<Rightarrow> error + item" where
  "axis_getitem self (Position i) =
     (case array_get self of
        Inl e \<Rightarrow> Inl e
      | Inr (a, _) \<Rightarrow> (case np_item a i of Inl e \<Rightarrow> Inl e | Inr x \<Rightarrow> Inr (Sample x)))"
| "axis_getitem self (Range sl) =
     (case array_get self of
        Inl e \<Rightarrow> Inl e
      | Inr (a, _) \<Rightarrow> (case np_getslice a sl of Inl e \<Rightarrow> Inl e | Inr ys \<Rightarrow> Inr (Samples ys)))"


section \<open>Example objects\<close>

text \<open>
  The two arrays of the specification's example scenarios, with integer samples: a 1-D
  array over \<^verbatim>\<open>x\<close>, and an array of shape \<^verbatim>\<open>(3, 2)\<close> over \<^verbatim>\<open>x\<close> and \<^verbatim>\<open>y\<close>.
\<close>

definition example_1d :: "(int, int) dnpData" where
  "example_1d =
     dnpData_init \<lparr>shape = [4], data = [10, 20, 30, 40]\<rparr> [[0, 1, 2, 3]] [''x''] [] []"

definition example_2d :: "(int, int) dnpData" where
  "example_2d =
     dnpData_init \<lparr>shape = [3, 2], data = [1, 2, 3, 4, 5, 6]\<rparr> [[0, 1, 2], [10, 20]]
       [''x'', ''y''] [] []"

text \<open>
  Two arrays over \<^verbatim>\<open>y\<close> and \<^verbatim>\<open>x\<close>, in this order, of shapes \<^verbatim>\<open>(2, 3)\<close> and \<^verbatim>\<open>(2, 1)\<close>, for
  concatenation along \<^verbatim>\<open>x\<close>.
\<close>

definition example_yx :: "(int, int) dnpData" where
  "example_yx =
     dnpData_init \<lparr>shape = [2, 3], data = [1, 2, 3, 4, 5, 6]\<rparr> [[30, 40], [5, 6, 7]]
       [''y'', ''x''] [] []"

definition example_yx_column :: "(int, int) dnpData" where
  "example_yx_column =
     dnpData_init \<lparr>shape = [2, 1], data = [7, 8]\<rparr> [[30, 40], [8]] [''y'', ''x''] [] []"

section \<open>Properties\<close>

subsection \<open>Indexing of tabulated arrays\<close>

lemma length_all_indices: "length (all_indices sh) = prod_list sh"
proof (induction sh)
  case Nil
  then show ?case by simp
next
  case (Cons n ns)
  have "length (concat (map (\<lambda>i. map ((#) i) (all_indices ns)) [0..<n])) = n * prod_list ns"
    using Cons.IH by (induction n) simp_all
  then show ?case by simp
qed

lemma concat_nth_uniform:
  assumes "\<forall>xs \<in> set xss. length xs = m" and "i < length xss" and "j < m"
  shows "concat xss ! (i * m + j) = xss ! i ! j"
  using assms
proof (induction xss arbitrary: i)
  case Nil
  then show ?case by simp
next
  case (Cons xs xss)
  show ?case
  proof (cases i)
    case 0
    with Cons.prems show ?thesis by (simp add: nth_append)
  next
    case (Suc i')
    with Cons.prems have "concat xss ! (i' * m + j) = xss ! i' ! j"
      by (intro Cons.IH) simp_all
    moreover have "length xs = m" using Cons.prems by simp
    ultimately show ?thesis using Suc by (simp add: nth_append add.assoc)
  qed
qed

lemma flat_index_less:
  "valid_index sh idx \<Longrightarrow> flat_index sh idx < prod_list sh"
proof (induction sh idx rule: flat_index.induct)
  case (1 n ns i "is")
  then have i: "i < n" and rest: "flat_index ns is < prod_list ns"
    by (simp_all add: valid_index_def)
  have "i * prod_list ns + flat_index ns is < i * prod_list ns + prod_list ns"
    using rest by simp
  also have "\<dots> = Suc i * prod_list ns" by simp
  also have "\<dots> \<le> n * prod_list ns" using i by (intro mult_le_mono1) simp
  finally show ?case by simp
qed (simp_all add: valid_index_def)

lemma all_indices_nth_flat_index:
  "valid_index sh idx \<Longrightarrow> all_indices sh ! flat_index sh idx = idx"
proof (induction sh idx rule: flat_index.induct)
  case (1 n ns i "is")
  then have i: "i < n" and v: "valid_index ns is"
    by (simp_all add: valid_index_def)
  let ?xss = "map (\<lambda>i. map ((#) i) (all_indices ns)) [0..<n]"
  have "concat ?xss ! (i * prod_list ns + flat_index ns is) = ?xss ! i ! flat_index ns is"
    using i flat_index_less[OF v]
    by (intro concat_nth_uniform) (auto simp add: length_all_indices)
  also have "\<dots> = i # all_indices ns ! flat_index ns is"
    using i flat_index_less[OF v] by (simp add: length_all_indices)
  finally show ?case using 1 v by simp
qed (simp_all add: valid_index_def)

lemma get_tabulate:
  "valid_index sh idx \<Longrightarrow> get (tabulate sh f) idx = f idx"
  using flat_index_less[of sh idx] all_indices_nth_flat_index[of sh idx]
  by (simp add: get_def tabulate_def length_all_indices)

lemma shape_tabulate: "shape (tabulate sh f) = sh"
  by (simp add: tabulate_def)

lemma valid_tabulate: "valid_ndarray (tabulate sh f)"
  by (simp add: tabulate_def valid_ndarray_def length_all_indices)

subsection \<open>Positions, and the invariant as an equation of shapes\<close>

lemma index_of_None: "index_of xs x = None \<longleftrightarrow> x \<notin> set xs"
  by (induction xs) auto

lemma index_of_Some: "index_of xs x = Some k \<Longrightarrow> k < length xs \<and> xs ! k = x"
  by (induction xs arbitrary: k) (auto split: if_splits)

lemma list_all_upt: "list_all P [0..<n] \<longleftrightarrow> (\<forall>i<n. P i)"
  by (auto simp add: list_all_iff)

lemma core_invariant_shape:
  "core_invariant A \<longleftrightarrow>
     length (dims A) = length (coords A) \<and> shape (values A) = map length (coords A)"
proof
  assume inv: "core_invariant A"
  then have l: "length (dims A) = length (coords A)"
    and n: "length (coords A) = length (shape (values A))"
    and e: "\<forall>i<length (coords A). length (coords A ! i) = shape (values A) ! i"
    unfolding core_invariant_def ndim_def list_all_upt by blast+
  have "shape (values A) = map length (coords A)"
  proof (rule nth_equalityI)
    show "length (shape (values A)) = length (map length (coords A))" using n by simp
  next
    fix i assume "i < length (shape (values A))"
    then show "shape (values A) ! i = map length (coords A) ! i" using n e by simp
  qed
  with l show "length (dims A) = length (coords A) \<and> shape (values A) = map length (coords A)"
    by blast
next
  assume r: "length (dims A) = length (coords A) \<and> shape (values A) = map length (coords A)"
  then have sh: "shape (values A) = map length (coords A)" by blast
  show "core_invariant A"
    unfolding core_invariant_def ndim_def list_all_upt sh using r by simp
qed

lemma pop_at_map: "pop_at k (map f xs) = map f (pop_at k xs)"
  by (simp add: pop_at_def take_map drop_map)

lemma length_pop_at: "k < length xs \<Longrightarrow> length (pop_at k xs) = length xs - 1"
  by (simp add: pop_at_def)

subsection \<open>Workspace construction\<close>

text \<open>
  C9. The constructor of the workspace called with a single labeled array raises
  \<^verbatim>\<open>KeyError\<close> for the key \<^verbatim>\<open>'raw'\<close>, whatever the array is, so nothing is stored under
  that key; the same holds through \<^verbatim>\<open>create_workspace\<close>. Whenever the constructor returns
  a workspace, its arguments were none, a single \<^verbatim>\<open>dict\<close>, or a string key followed by a
  value.
\<close>

theorem collection_init_single_dnpData:
  "dnpdata_collection_init [PyData d] = Inl (KeyError ''raw'') \<and>
   create_workspace [PyData d] = Inl (KeyError ''raw'') \<and>
   (dnpdata_collection_init args = Inr ws \<longrightarrow>
      args = [] \<or> (\<exists>dd. args = [PyDict dd]) \<or> (\<exists>key v. args = [PyStr key, v]))"
proof -
  have raw: "dnpdata_collection_init [PyData d] = Inl (KeyError ''raw'')"
    by (simp add: dnpdata_collection_init_def dict_getitem_def)
  have forms: "args = [] \<or> (\<exists>dd. args = [PyDict dd]) \<or> (\<exists>key v. args = [PyStr key, v])"
    if ok: "init_args self args = Inr ws" and empty: "data_dict self = []" for self
    using ok empty
    by (induction self args rule: init_args.induct) (simp_all add: dict_getitem_def)
  from raw forms show ?thesis
    by (auto simp add: create_workspace_def dnpdata_collection_init_def)
qed

theorem collection_init_single_dnpData_witness:
  "dnpdata_collection_init [PyStr ''raw'', PyData example_1d] =
     Inr \<lparr>processing_buffer = ''proc'', data_dict = [(''raw'', PyData example_1d)]\<rparr> \<and>
   dnpdata_collection_init [PyData example_1d] = Inl (KeyError ''raw'') \<and>
   ([PyStr ''raw'', PyData example_1d] = [] \<or>
    (\<exists>dd. [PyStr ''raw'', PyData example_1d] = [PyDict dd]) \<or>
    (\<exists>key v. [PyStr ''raw'', PyData example_1d] = [PyStr key, v]))"
proof -
  have built: "dnpdata_collection_init [PyStr ''raw'', PyData example_1d] =
     Inr \<lparr>processing_buffer = ''proc'', data_dict = [(''raw'', PyData example_1d)]\<rparr>"
    by (simp add: dnpdata_collection_init_def dict_setitem_def)
  from built
    collection_init_single_dnpData
      [of example_1d "[PyStr ''raw'', PyData example_1d]"
          "\<lparr>processing_buffer = ''proc'', data_dict = [(''raw'', PyData example_1d)]\<rparr>"]
  show ?thesis by simp
qed

subsection \<open>Construction of a labeled array\<close>

text \<open>
  C1, as stated, fails: the constructor accepts a buffer of three samples with a coordinate
  vector of two, and the object it returns violates the core invariant.
\<close>

theorem init_accepts_mismatch:
  "dnpData_init \<lparr>shape = [3], data = [1, 2, 3 :: int]\<rparr> [[0, 1 :: int]] [''x''] [] [] =
     \<lparr>version = ''1.0'', values = \<lparr>shape = [3], data = [1, 2, 3]\<rparr>, coords = [[0, 1]],
      dims = [''x''], attrs = [], proc_attrs = []\<rparr> \<and>
   \<not> core_invariant
     (dnpData_init \<lparr>shape = [3], data = [1, 2, 3 :: int]\<rparr> [[0, 1 :: int]] [''x''] [] [])"
  by (simp add: dnpData_init_def core_invariant_def ndim_def)

text \<open>
  C1, amended. Construction performs no validation and cannot fail: the object holds the
  buffer, the coordinate vectors, the dimension names and the attributes exactly as given,
  with an empty processing log, and it satisfies the core invariant if and only if the
  arguments do.
\<close>

theorem init_stores_arguments:
  "values (dnpData_init vals crds dms ats pl) = vals \<and>
   coords (dnpData_init vals crds dms ats pl) = crds \<and>
   dims (dnpData_init vals crds dms ats pl) = dms \<and>
   attrs (dnpData_init vals crds dms ats pl) = ats \<and>
   proc_attrs (dnpData_init vals crds dms ats pl) = [] \<and>
   (core_invariant (dnpData_init vals crds dms ats pl) \<longleftrightarrow>
      length dms = length crds \<and> length crds = length (shape vals) \<and>
      (\<forall>i < length crds. length (crds ! i) = shape vals ! i))"
  by (auto simp add: dnpData_init_def core_invariant_def ndim_def list_all_iff)

theorem init_stores_arguments_witness:
  "core_invariant example_1d \<and> values example_1d = \<lparr>shape = [4], data = [10, 20, 30, 40]\<rparr> \<and>
   coords example_1d = [[0, 1, 2, 3]] \<and> dims example_1d = [''x'']"
  using init_stores_arguments
    [of "\<lparr>shape = [4], data = [10, 20, 30, 40 :: int]\<rparr>" "[[0, 1, 2, 3 :: int]]" "[''x'']" "[]" "[]"]
  by (simp add: example_1d_def)

subsection \<open>Arithmetic operators\<close>

text \<open>
  C7. Reflected subtraction with a scalar on the left, \<^verbatim>\<open>s - A\<close>, does not compute: for
  every array and every scalar \<^verbatim>\<open>__rsub__\<close> raises \<^verbatim>\<open>AttributeError\<close>, while \<^verbatim>\<open>A - s\<close>
  returns the array with \<open>s\<close> subtracted from every sample. On the 1-D example with
  \<open>s = 1\<close>, \<^verbatim>\<open>A - s\<close> has the values 9, 19, 29, 39 and \<^verbatim>\<open>s - A\<close> has none, while the
  branch for an array on the left does subtract: the array of four ones minus \<open>A\<close> has the
  values -9, -19, -29, -39.
\<close>

theorem rsub_scalar_raises:
  "dnpData_rsub self (Scalar s) =
     ([], Inl (AttributeError ''dnpData object has no attribute data'')) \<and>
   dnpData_sub self (Scalar s) =
     ([], Inr (Some (self\<lparr>values := map_nd (\<lambda>x. x - s) (values self)\<rparr>))) \<and>
   dnpData_rsub example_1d (Scalar 1) =
     ([], Inl (AttributeError ''dnpData object has no attribute data'')) \<and>
   dnpData_sub example_1d (Scalar 1) =
     ([], Inr (Some (example_1d\<lparr>values := \<lparr>shape = [4], data = [9, 19, 29, 39]\<rparr>\<rparr>))) \<and>
   dnpData_rsub example_1d (NdArray \<lparr>shape = [4], data = [1, 1, 1, 1]\<rparr>) =
     ([], Inr (Some (example_1d\<lparr>values := \<lparr>shape = [4], data = [- 9, - 19, - 29, - 39]\<rparr>\<rparr>)))"
proof (intro conjI)
  show "dnpData_rsub self (Scalar s) =
     ([], Inl (AttributeError ''dnpData object has no attribute data''))"
    and "dnpData_rsub example_1d (Scalar 1) =
     ([], Inl (AttributeError ''dnpData object has no attribute data''))"
    by (simp_all add: raises_def)
  show "dnpData_sub self (Scalar s) =
     ([], Inr (Some (self\<lparr>values := map_nd (\<lambda>x. x - s) (values self)\<rparr>)))"
    by (simp add: returns_def)
  show "dnpData_sub example_1d (Scalar 1) =
     ([], Inr (Some (example_1d\<lparr>values := \<lparr>shape = [4], data = [9, 19, 29, 39]\<rparr>\<rparr>)))"
    by (simp add: returns_def map_nd_def example_1d_def dnpData_init_def)
  show "dnpData_rsub example_1d (NdArray \<lparr>shape = [4], data = [1, 1, 1, 1]\<rparr>) =
     ([], Inr (Some (example_1d\<lparr>values := \<lparr>shape = [4], data = [- 9, - 19, - 29, - 39]\<rparr>\<rparr>)))"
    by code_simp
qed

text \<open>
  C8. For an operand of a type the operators do not support, each of \<^verbatim>\<open>+\<close>, \<^verbatim>\<open>-\<close>, \<^verbatim>\<open>*\<close>
  and \<^verbatim>\<open>**\<close> (and the reflected forms) raises nothing: it prints the two diagnostic lines
  and returns \<^verbatim>\<open>None\<close>. The receiver is the argument \<open>self\<close>, which no branch assigns to.
\<close>

theorem unsupported_operand_soft_failure:
  assumes "\<not> supported x"
  shows "dnpData_add self x = ([''Cannot add, type not supported:'', type_repr x], Inr None) \<and>
         dnpData_sub self x = ([''Cannot add, type not supported:'', type_repr x], Inr None) \<and>
         dnpData_mul self x = ([''Cannot add, type not supported:'', type_repr x], Inr None) \<and>
         dnpData_pow pw self x = ([''Cannot add, type not supported:'', type_repr x], Inr None) \<and>
         dnpData_radd self x = ([''Cannot add, type not supported:'', type_repr x], Inr None) \<and>
         dnpData_rsub self x = ([''Cannot add, type not supported:'', type_repr x], Inr None) \<and>
         dnpData_rmul self x = ([''Cannot add, type not supported:'', type_repr x], Inr None)"
  using assms
  by (cases x) (simp_all add: not_supported_def dnpData_radd_def dnpData_rmul_def)

theorem unsupported_operand_soft_failure_witness:
  "\<not> supported (Other ''<class 'str'>'' :: (int, int) operand) \<and>
   dnpData_add example_1d (Other ''<class 'str'>'') =
     ([''Cannot add, type not supported:'', ''<class 'str'>''], Inr None) \<and>
   dnpData_pow (\<lambda>x y. x ^ nat y) example_1d (PyBool True) =
     ([''Cannot add, type not supported:'', ''<class 'bool'>''], Inr None)"
  using unsupported_operand_soft_failure [of "Other ''<class 'str'>''" example_1d]
        unsupported_operand_soft_failure [of "PyBool True" example_1d "\<lambda>x y. x ^ nat y"]
  by simp

subsection \<open>Reductions\<close>

text \<open>
  C4, as stated, fails in its last part: summing the \<^verbatim>\<open>(3, 2)\<close> example over the name
  \<^verbatim>\<open>z\<close>, which is not one of its dimensions, raises \<^verbatim>\<open>ValueError\<close> (from \<^verbatim>\<open>list.index\<close>),
  not \<^verbatim>\<open>KeyError\<close>.
\<close>

theorem sum_absent_dimension_not_KeyError:
  "dnpData_sum example_2d ''z'' = (Some (ValueError ''x is not in list''), example_2d) \<and>
   fst (dnpData_sum example_2d ''z'') \<noteq> Some (KeyError ''z'')"
  by (simp add: dnpData_sum_def py_index_def example_2d_def dnpData_init_def)

text \<open>
  C4, amended. For a labeled array that satisfies the core invariant: a name that is not
  among the dimensions makes \<^verbatim>\<open>sum\<close> (and \<^verbatim>\<open>amax\<close>) raise \<^verbatim>\<open>ValueError\<close> and leaves the array
  as it was; a name at position \<open>k\<close> is removed from \<^verbatim>\<open>dims\<close> together with its coordinate
  vector, the buffer loses axis \<open>k\<close>, each of its entries is the sum of the original
  entries along that axis, and the invariant holds again. On the \<^verbatim>\<open>(3, 2)\<close> example, summing
  over \<^verbatim>\<open>x\<close> leaves \<^verbatim>\<open>dims = ['y']\<close>, \<^verbatim>\<open>coords = [[10, 20]]\<close> and the column sums 9 and 12.
\<close>

theorem sum_removes_dimension:
  assumes inv: "core_invariant A"
  shows "(d \<notin> set (dims A) \<longrightarrow>
           dnpData_sum A d = (Some (ValueError ''x is not in list''), A) \<and>
           dnpData_amax A d = Inl (ValueError ''x is not in list'')) \<and>
         (\<forall>k. index_of (dims A) d = Some k \<longrightarrow>
           (\<exists>A'. dnpData_sum A d = (None, A') \<and>
              dims A' = pop_at k (dims A) \<and> coords A' = pop_at k (coords A) \<and>
              attrs A' = attrs A \<and>
              shape (values A') = pop_at k (shape (values A)) \<and>
              (\<forall>idx. valid_index (shape (values A')) idx \<longrightarrow>
                 get (values A') idx =
                   sum_list (map (\<lambda>j. get (values A) (take k idx @ j # drop k idx))
                               [0..<shape (values A) ! k])) \<and>
              core_invariant A')) \<and>
         dnpData_sum example_2d ''x'' =
           (None, example_2d\<lparr>values := \<lparr>shape = [2], data = [9, 12]\<rparr>, dims := [''y''],
                              coords := [[10, 20]]\<rparr>)"
proof (intro conjI impI allI)
  assume "d \<notin> set (dims A)"
  then have "index_of (dims A) d = None" by (simp add: index_of_None)
  then show "dnpData_sum A d = (Some (ValueError ''x is not in list''), A)"
    and "dnpData_amax A d = Inl (ValueError ''x is not in list'')"
    by (simp_all add: dnpData_sum_def dnpData_amax_def py_index_def)
next
  fix k
  assume found: "index_of (dims A) d = Some k"
  then have k: "k < length (dims A)" by (simp add: index_of_Some)
  from inv have len: "length (dims A) = length (coords A)"
    and sh: "shape (values A) = map length (coords A)"
    by (simp_all add: core_invariant_shape)
  let ?v = "tabulate (pop_at k (shape (values A)))
              (\<lambda>idx. sum_list (map (\<lambda>j. get (values A) (take k idx @ j # drop k idx))
                                   [0..<shape (values A) ! k]))"
  let ?A' = "A\<lparr>values := ?v, dims := pop_at k (dims A), coords := pop_at k (coords A)\<rparr>"
  have run: "dnpData_sum A d = (None, ?A')"
    using found k len sh
    by (simp add: dnpData_sum_def py_index_def np_sum_def ndim_def py_pop_def Let_def)
  have inv': "core_invariant ?A'"
    using k len sh
    by (simp add: core_invariant_shape shape_tabulate pop_at_map length_pop_at)
  have elems: "\<forall>idx. valid_index (shape (values ?A')) idx \<longrightarrow>
                 get (values ?A') idx =
                   sum_list (map (\<lambda>j. get (values A) (take k idx @ j # drop k idx))
                               [0..<shape (values A) ! k])"
    by (simp add: shape_tabulate get_tabulate)
  show "\<exists>A'. dnpData_sum A d = (None, A') \<and>
              dims A' = pop_at k (dims A) \<and> coords A' = pop_at k (coords A) \<and>
              attrs A' = attrs A \<and>
              shape (values A') = pop_at k (shape (values A)) \<and>
              (\<forall>idx. valid_index (shape (values A')) idx \<longrightarrow>
                 get (values A') idx =
                   sum_list (map (\<lambda>j. get (values A) (take k idx @ j # drop k idx))
                               [0..<shape (values A) ! k])) \<and>
              core_invariant A'"
    using run inv' elems by (intro exI[of _ ?A']) (simp add: shape_tabulate)
next
  show "dnpData_sum example_2d ''x'' =
           (None, example_2d\<lparr>values := \<lparr>shape = [2], data = [9, 12]\<rparr>, dims := [''y''],
                              coords := [[10, 20]]\<rparr>)"
    by code_simp
qed

theorem sum_removes_dimension_witness:
  "core_invariant example_2d \<and> index_of (dims example_2d) ''x'' = Some 0 \<and>
   (\<exists>A'. dnpData_sum example_2d ''x'' = (None, A') \<and> dims A' = [''y''] \<and>
         coords A' = [[10, 20]] \<and> shape (values A') = [2] \<and> core_invariant A')"
proof -
  have inv: "core_invariant example_2d" by code_simp
  have pos: "index_of (dims example_2d) ''x'' = Some 0"
    by (simp add: example_2d_def dnpData_init_def)
  have fields: "pop_at 0 (dims example_2d) = [''y'']"
    "pop_at 0 (coords example_2d) = [[10, 20]]"
    "pop_at 0 (shape (values example_2d)) = [2]"
    by (simp_all add: example_2d_def dnpData_init_def pop_at_def)
  from sum_removes_dimension [OF inv, of "''x''"] pos
  have "\<exists>A'. dnpData_sum example_2d ''x'' = (None, A') \<and>
          dims A' = pop_at 0 (dims example_2d) \<and> coords A' = pop_at 0 (coords example_2d) \<and>
          shape (values A') = pop_at 0 (shape (values example_2d)) \<and> core_invariant A'"
    by blast
  with inv pos fields show ?thesis by simp
qed

subsection \<open>Axis objects\<close>

text \<open>
  C5. An axis constructed from an array of samples keeps the array in \<^verbatim>\<open>_axis\<close>, which
  nothing reads: \<^verbatim>\<open>_array\<close>, \<^verbatim>\<open>__start\<close>, \<^verbatim>\<open>__stop\<close> and \<^verbatim>\<open>__step\<close> stay unassigned, and the
  property \<^verbatim>\<open>array\<close>, \<^verbatim>\<open>len(axis)\<close> and \<^verbatim>\<open>axis[i]\<close> all raise \<^verbatim>\<open>AttributeError\<close>, for every
  array and every subscript; so for the samples 0, 1, 2.
\<close>

theorem axis_from_array_unreadable:
  "nddata_axis_init d [ArgArray coord] =
     Inr ((new_axis d)\<lparr>attr_axis := Some coord, attr_type := Some ''ndarray''\<rparr>) \<and>
   array_get ((new_axis d)\<lparr>attr_axis := Some coord, attr_type := Some ''ndarray''\<rparr>) =
     Inl (AttributeError ''_nddata_axis__start'') \<and>
   axis_len ((new_axis d)\<lparr>attr_axis := Some coord, attr_type := Some ''ndarray''\<rparr>) =
     Inl (AttributeError ''_nddata_axis__start'') \<and>
   axis_getitem ((new_axis d)\<lparr>attr_axis := Some coord, attr_type := Some ''ndarray''\<rparr>) sub =
     Inl (AttributeError ''_nddata_axis__start'') \<and>
   nddata_axis_init ''x'' [ArgArray (FloatArray [0, 1, 2])] =
     Inr \<lparr>attr_dim = ''x'', attr_start = None, attr_stop = None, attr_step = None,
          attr_array = None, attr_axis = Some (FloatArray [0, 1, 2]),
          attr_type = Some ''ndarray''\<rparr> \<and>
   array_get \<lparr>attr_dim = ''x'', attr_start = None, attr_stop = None, attr_step = None,
          attr_array = None, attr_axis = Some (FloatArray [0, 1, 2]),
          attr_type = Some ''ndarray''\<rparr> = Inl (AttributeError ''_nddata_axis__start'')"
proof -
  have init: "nddata_axis_init d [ArgArray c] =
     Inr ((new_axis d)\<lparr>attr_axis := Some c, attr_type := Some ''ndarray''\<rparr>)" for d c
    by (simp add: reduce_def new_axis_def)
  have get: "array_get ((new_axis d)\<lparr>attr_axis := Some c, attr_type := Some ''ndarray''\<rparr>) =
     Inl (AttributeError ''_nddata_axis__start'')" for d c
    by (simp add: array_get_def new_axis_def getattr_def)
  have len: "axis_len ((new_axis d)\<lparr>attr_axis := Some coord, attr_type := Some ''ndarray''\<rparr>) =
     Inl (AttributeError ''_nddata_axis__start'')"
    by (simp add: axis_len_def get)
  have item: "axis_getitem ((new_axis d)\<lparr>attr_axis := Some coord, attr_type := Some ''ndarray''\<rparr>) sub =
     Inl (AttributeError ''_nddata_axis__start'')"
    by (cases sub) (simp_all add: get)
  have ex1: "nddata_axis_init ''x'' [ArgArray (FloatArray [0, 1, 2])] =
     Inr \<lparr>attr_dim = ''x'', attr_start = None, attr_stop = None, attr_step = None,
          attr_array = None, attr_axis = Some (FloatArray [0, 1, 2]),
          attr_type = Some ''ndarray''\<rparr>"
    using init [where d = "''x''" and c = "FloatArray [0, 1, 2]"] by (simp add: new_axis_def)
  have ex2: "array_get \<lparr>attr_dim = ''x'', attr_start = None, attr_stop = None, attr_step = None,
          attr_array = None, attr_axis = Some (FloatArray [0, 1, 2]),
          attr_type = Some ''ndarray''\<rparr> = Inl (AttributeError ''_nddata_axis__start'')"
    using get [where d = "''x''" and c = "FloatArray [0, 1, 2]"] by (simp add: new_axis_def)
  from init get len item ex1 ex2 show ?thesis by blast
qed

text \<open>An array stored through the setter of \<^verbatim>\<open>array\<close> is read back, and counted.\<close>

lemma axis_array_setter_reads_back:
  "array_get (array_set ax b) = Inr (b, array_set ax b) \<and>
   axis_len (array_set ax b) = Inr (np_size b)"
  by (simp add: array_get_def array_set_def axis_len_def)

subsection \<open>Reducing an axis to start, stop and step\<close>












lemma real_value_num_add: "real_value (num_add x y) = real_value x + real_value y"
  by (cases x; cases y) (simp_all add: num_add_def)











subsection \<open>Indexing\<close>

lemma length_tokens_of: "length (tokens_of ps) = 2 * length ps"
  by (induction ps rule: tokens_of.induct) simp_all

lemma labels_tokens_of: "every_other (tokens_of ps) = map (\<lambda>p. TokStr (fst p)) ps"
  by (induction ps rule: tokens_of.induct) simp_all

lemma selectors_tokens_of:
  "every_other (drop 1 (tokens_of ps)) = map (\<lambda>p. selector_token (snd p)) ps"
proof (induction ps rule: tokens_of.induct)
  case 1
  then show ?case by simp
next
  case (2 d s rest)
  then show ?case by (cases rest) auto
qed

lemma index_of_labels_None:
  "map_of ps d = None \<Longrightarrow> index_of (map (\<lambda>p. TokStr (fst p)) ps) (TokStr d) = None"
  by (induction ps) (auto split: if_splits)

lemma index_of_labels_Some:
  "map_of ps d = Some s \<Longrightarrow>
     \<exists>ix. index_of (map (\<lambda>p. TokStr (fst p)) ps) (TokStr d) = Some ix \<and> ix < length ps \<and>
          snd (ps ! ix) = s"
  by (induction ps) (auto split: if_splits)

lemma resolve_selected:
  assumes "map_of ps d = Some s"
  shows "resolve (selector_token s) = Some (selected_slice ps d n)"
  using assms by (cases s) (simp_all add: selected_slice_def)

lemma build_indices_selected:
  assumes "\<forall>row \<in> set rows. fst row < length crds"
  shows "build_indices crds (map (\<lambda>p. TokStr (fst p)) ps) (map (\<lambda>p. selector_token (snd p)) ps) rows =
           Inr (map (\<lambda>row. Some (selected_slice ps (snd row) (length (crds ! fst row)))) rows)"
  using assms
proof (induction rows)
  case Nil
  then show ?case by simp
next
  case (Cons row rows)
  obtain i d where row: "row = (i, d)" by (cases row)
  from Cons have IH: "build_indices crds (map (\<lambda>p. TokStr (fst p)) ps)
        (map (\<lambda>p. selector_token (snd p)) ps) rows =
      Inr (map (\<lambda>row. Some (selected_slice ps (snd row) (length (crds ! fst row)))) rows)"
    and i: "i < length crds" using row by simp_all
  show ?case
  proof (cases "map_of ps d")
    case None
    then show ?thesis
      using IH i row index_of_labels_None [OF None]
      by (simp add: selected_slice_def)
  next
    case (Some s)
    from index_of_labels_Some [OF Some] obtain ix where
      ix: "index_of (map (\<lambda>p. TokStr (fst p)) ps) (TokStr d) = Some ix" "ix < length ps"
          "snd (ps ! ix) = s" by blast
    then show ?thesis
      using IH row resolve_selected [OF Some] by simp
  qed
qed

lemma slice_positions_nonzero:
  "c \<noteq> Some 0 \<Longrightarrow>
     slice_positions (Slice a b c) n = Inr (positions_of (Slice a b c) n)"
  by (cases c) (simp_all add: positions_of_def slice_positions_def Let_def)

lemma selected_slice_nonzero:
  assumes "\<forall>p \<in> set ps. nonzero_step (snd p)"
  shows "\<exists>a b c. selected_slice ps d n = Slice a b c \<and> c \<noteq> Some 0"
proof (cases "map_of ps d")
  case None
  then show ?thesis by (simp add: selected_slice_def)
next
  case (Some s)
  then have "(d, s) \<in> set ps" by (rule map_of_SomeD)
  with assms have nz: "nonzero_step s" by force
  show ?thesis
  proof (cases s)
    case (SelInt k)
    with Some show ?thesis by (simp add: selected_slice_def)
  next
    case (SelSlice sl)
    obtain a b c where sl: "sl = Slice a b c" by (cases sl)
    with nz SelSlice have "c \<noteq> Some 0" by (cases c) auto
    with Some SelSlice sl show ?thesis by (simp add: selected_slice_def)
  qed
qed

lemma selected_positions:
  assumes "\<forall>p \<in> set ps. nonzero_step (snd p)"
  shows "slice_positions (selected_slice ps d n) m = Inr (positions_of (selected_slice ps d n) m)"
  using selected_slice_nonzero [OF assms, of d n] slice_positions_nonzero by auto

lemma range_pos_bound:
  assumes "0 < step" and "i < range_len start stop step"
  shows "start + int i * step < stop"
proof -
  from assms have lt: "start < stop" and i: "int i \<le> (stop - start - 1) div step"
    by (auto simp add: range_len_def split: if_splits)
  have "int i * step \<le> ((stop - start - 1) div step) * step"
    using i assms(1) by (simp add: mult_right_mono)
  also have "\<dots> \<le> stop - start - 1"
    using pos_mod_sign [OF assms(1), of "stop - start - 1"]
      div_mult_mod_eq [of "stop - start - 1" step] by linarith
  finally show ?thesis by simp
qed

lemma range_neg_bound:
  assumes "step < 0" and "i < range_len start stop step"
  shows "stop < start + int i * step"
proof -
  from assms have lt: "stop < start" and i: "int i \<le> (start - stop - 1) div (- step)"
    by (auto simp add: range_len_def split: if_splits)
  have "int i * (- step) \<le> ((start - stop - 1) div (- step)) * (- step)"
    using i assms(1) by (simp add: mult_right_mono)
  also have "\<dots> \<le> start - stop - 1"
    using pos_mod_sign [of "- step" "start - stop - 1"] assms(1)
      div_mult_mod_eq [of "start - stop - 1" "- step"] by linarith
  finally show ?thesis by simp
qed

lemma positions_of_in_range:
  assumes "p \<in> set (positions_of sl n)"
  shows "p < n"
proof -
  obtain a b c where sl: "sl = Slice a b c" by (cases sl)
  define step where "step = (case c of None \<Rightarrow> 1 | Some s \<Rightarrow> s)"
  show ?thesis
  proof (cases "step = 0")
    case True
    with assms sl show ?thesis
      by (simp add: positions_of_def slice_positions_def step_def Let_def)
  next
    case False
    define lower where "lower = (if step < 0 then - 1 else (0::int))"
    define upper where "upper = (if step < 0 then int n - 1 else int n)"
    define start where
      "start = slice_bound a (if step < 0 then upper else lower) lower upper (int n)"
    define stop where
      "stop = slice_bound b (if step < 0 then lower else upper) lower upper (int n)"
    have adj: "slice_adjust sl (int n) = Inr (start, stop, step)"
      using False
      by (simp add: sl Let_def step_def [symmetric] lower_def [symmetric] upper_def [symmetric]
            start_def stop_def)
    then have "positions_of sl n = map nat (py_range start stop step)"
      by (simp add: positions_of_def slice_positions_def)
    with assms obtain i where i: "i < range_len start stop step"
      and p: "p = nat (start + int i * step)"
      by (auto simp add: py_range_def)
    have lu: "lower \<le> upper" by (simp add: lower_def upper_def)
    have bounds: "lower \<le> x \<and> x \<le> upper"
      if "x = slice_bound y dflt lower upper (int n)" and "dflt = lower \<or> dflt = upper" for x y dflt
      using that lu by (cases y) (auto simp add: slice_bound_def lower_def upper_def)
    have st: "lower \<le> start \<and> start \<le> upper"
      by (rule bounds [where y = a and dflt = "if step < 0 then upper else lower"])
         (simp_all add: start_def)
    have sp: "lower \<le> stop \<and> stop \<le> upper"
      by (rule bounds [where y = b and dflt = "if step < 0 then lower else upper"])
         (simp_all add: stop_def)
    show ?thesis
    proof (cases "0 < step")
      case True
      from range_pos_bound [OF True i] have "start + int i * step < stop" .
      moreover have "0 \<le> start + int i * step" using st True by (simp add: lower_def)
      moreover have "stop \<le> int n" using sp True by (simp add: upper_def)
      ultimately show ?thesis using p by simp
    next
      case neg: False
      with False have neg: "step < 0" by simp
      from range_neg_bound [OF neg i] have "stop < start + int i * step" .
      moreover have "- 1 \<le> stop" using sp neg by (simp add: lower_def)
      moreover have "int i * step \<le> 0" using neg by (simp add: mult_nonneg_nonpos)
      moreover have "start \<le> int n - 1" using st neg by (simp add: upper_def)
      ultimately show ?thesis using p by simp
    qed
  qed
qed

lemma axis_positions_slices:
  assumes "length sls = length sh"
    and "\<forall>k < length sls. slice_positions (sls ! k) (sh ! k) = Inr (positions_of (sls ! k) (sh ! k))"
  shows "axis_positions (map Some sls) sh = Inr (map2 positions_of sls sh)"
  using assms
proof (induction sls sh rule: list_induct2)
  case Nil
  then show ?case by simp
next
  case (Cons sl sls n sh)
  from Cons.prems have hd: "slice_positions sl n = Inr (positions_of sl n)"
    and tl: "\<forall>k < length sls. slice_positions (sls ! k) (sh ! k) = Inr (positions_of (sls ! k) (sh ! k))"
    by (auto simp add: nth_Cons split: nat.splits)
  from Cons.IH [OF tl] hd show ?case by simp
qed

lemma slice_coords_slices:
  assumes "length sls = length cs"
    and "\<forall>k < length sls. slice_positions (sls ! k) (length (cs ! k)) =
            Inr (positions_of (sls ! k) (length (cs ! k)))"
  shows "slice_coords cs (map Some sls) =
           Inr (map2 (\<lambda>c sl. map (\<lambda>p. c ! p) (positions_of sl (length c))) cs sls)"
  using assms
proof (induction sls cs rule: list_induct2)
  case Nil
  then show ?case by simp
next
  case (Cons sl sls c cs)
  from Cons.prems have hd: "slice_positions sl (length c) = Inr (positions_of sl (length c))"
    and tl: "\<forall>k < length sls. slice_positions (sls ! k) (length (cs ! k)) =
            Inr (positions_of (sls ! k) (length (cs ! k)))"
    by (auto simp add: nth_Cons split: nat.splits)
  from Cons.IH [OF tl] hd show ?case by (simp add: py_getslice_def)
qed

lemma int_selector_positions:
  "0 \<le> k \<Longrightarrow> k < int n \<Longrightarrow> positions_of (Slice (Some k) (Some (k + 1)) None) n = [nat k]"
  "- int n \<le> k \<Longrightarrow> k < - 1 \<Longrightarrow> positions_of (Slice (Some k) (Some (k + 1)) None) n = [nat (k + int n)]"
  "0 < n \<Longrightarrow> positions_of (Slice (Some (- 1)) None None) n = [n - 1]"
  "positions_of (Slice (Some 0) (Some (int n)) None) n = [0..<n]"
proof -
  show "positions_of (Slice (Some k) (Some (k + 1)) None) n = [nat k]" if "0 \<le> k" "k < int n"
    using that
    by (simp add: positions_of_def slice_positions_def Let_def slice_bound_def py_range_def
          range_len_def)
  show "positions_of (Slice (Some k) (Some (k + 1)) None) n = [nat (k + int n)]"
    if "- int n \<le> k" "k < - 1"
  proof (cases "k + int n = 0")
    case True
    then have "nat (k + int n + 1) = 1" by simp
    with that True show ?thesis
      by (simp add: positions_of_def slice_positions_def Let_def slice_bound_def py_range_def
          range_len_def max_def)
  next
    case False
    with that show ?thesis
      by (simp add: positions_of_def slice_positions_def Let_def slice_bound_def py_range_def
          range_len_def max_def)
  qed
  show "positions_of (Slice (Some (- 1)) None None) n = [n - 1]" if "0 < n"
  proof (cases "n = 1")
    case True
    then show ?thesis
      by (simp add: positions_of_def slice_positions_def Let_def slice_bound_def py_range_def
          range_len_def max_def)
  next
    case False
    with that have "1 < n" by simp
    then show ?thesis
      by (simp add: positions_of_def slice_positions_def Let_def slice_bound_def py_range_def
          range_len_def max_def nat_diff_distrib')
  qed
  have "map (nat \<circ> int) [0..<n] = [0..<n]" by (simp add: map_idI)
  then show "positions_of (Slice (Some 0) (Some (int n)) None) n = [0..<n]"
    by (cases "n = 0")
       (simp_all add: positions_of_def slice_positions_def Let_def slice_bound_def py_range_def
          range_len_def)
qed

lemma getitem_selected:
  assumes inv: "core_invariant A" and steps: "\<forall>p \<in> set ps. nonzero_step (snd p)"
  shows "\<exists>out pss.
           dnpData_getitem A (tokens_of ps) = ([], Inr (Some out)) \<and>
           length pss = length (dims A) \<and>
           (\<forall>i < length (dims A).
              slice_positions (selected_slice ps (dims A ! i) (length (coords A ! i)))
                (length (coords A ! i)) = Inr (pss ! i) \<and>
              (\<forall>p \<in> set (pss ! i). p < length (coords A ! i)) \<and>
              coords out ! i = map (\<lambda>p. coords A ! i ! p) (pss ! i)) \<and>
           dims out = dims A \<and> attrs out = attrs A \<and>
           length (coords out) = length (dims A) \<and>
           shape (values out) = map length pss \<and>
           (\<forall>idx. valid_index (shape (values out)) idx \<longrightarrow>
              get (values out) idx = get (values A) (map2 (\<lambda>ps i. ps ! i) pss idx)) \<and>
           core_invariant out"
proof -
  let ?n = "length (dims A)"
  let ?rows = "zip [0..<?n] (dims A)"
  let ?sl = "\<lambda>row. selected_slice ps (snd row) (length (coords A ! fst row))"
  let ?sls = "map ?sl ?rows"
  let ?sh = "shape (values A)"
  let ?pss = "map2 positions_of ?sls ?sh"
  let ?cs = "map2 (\<lambda>c sl. map (\<lambda>p. c ! p) (positions_of sl (length c))) (coords A) ?sls"
  let ?v = "tabulate (map length ?pss) (\<lambda>idx. get (values A) (map2 (\<lambda>ps i. ps ! i) ?pss idx))"
  let ?out = "A\<lparr>values := ?v, coords := ?cs\<rparr>"
  from inv have len: "?n = length (coords A)" and sh: "?sh = map length (coords A)"
    by (simp_all add: core_invariant_shape)
  have lsls: "length ?sls = ?n" by simp
  have sls_nth: "?sls ! k = selected_slice ps (dims A ! k) (length (coords A ! k))" if "k < ?n" for k
    using that by simp
  have rows_ok: "\<forall>row \<in> set ?rows. fst row < length (coords A)"
    using len by (auto simp add: set_zip)
  have even: "length (tokens_of ps) mod 2 \<noteq> 1" by (simp add: length_tokens_of)
  have built: "build_indices (coords A) (every_other (tokens_of ps))
                 (every_other (drop 1 (tokens_of ps))) ?rows = Inr (map Some ?sls)"
    unfolding labels_tokens_of selectors_tokens_of
    using build_indices_selected [OF rows_ok, of ps] by (simp add: comp_def)
  have pos_sh: "\<forall>k < length ?sls. slice_positions (?sls ! k) (?sh ! k) =
                  Inr (positions_of (?sls ! k) (?sh ! k))"
    using selected_positions [OF steps] by simp
  have pos_cs: "\<forall>k < length ?sls. slice_positions (?sls ! k) (length (coords A ! k)) =
                  Inr (positions_of (?sls ! k) (length (coords A ! k)))"
    using selected_positions [OF steps] by simp
  have axes: "axis_positions (map Some ?sls) ?sh = Inr ?pss"
    by (rule axis_positions_slices [OF _ pos_sh]) (simp add: sh len)
  have crds: "slice_coords (coords A) (map Some ?sls) = Inr ?cs"
    by (rule slice_coords_slices [OF _ pos_cs]) (simp add: len)
  have run: "dnpData_getitem A (tokens_of ps) = ([], Inr (Some ?out))"
    unfolding dnpData_getitem_def Let_def built sum.case np_getitem_def axes crds returns_def
    using even by simp
  have lpss: "length ?pss = ?n" by (simp add: sh len)
  have pss_nth: "?pss ! i = positions_of (?sls ! i) (length (coords A ! i))" if "i < ?n" for i
    using that by (simp add: sh len)
  have cs_nth: "?cs ! i = map (\<lambda>p. coords A ! i ! p) (?pss ! i)" if "i < ?n" for i
    using that by (simp add: sh len)
  have per_axis: "slice_positions (selected_slice ps (dims A ! i) (length (coords A ! i)))
                (length (coords A ! i)) = Inr (?pss ! i) \<and>
              (\<forall>p \<in> set (?pss ! i). p < length (coords A ! i)) \<and>
              coords ?out ! i = map (\<lambda>p. coords A ! i ! p) (?pss ! i)" if i: "i < ?n" for i
  proof (intro conjI)
    show "slice_positions (selected_slice ps (dims A ! i) (length (coords A ! i)))
                (length (coords A ! i)) = Inr (?pss ! i)"
      unfolding pss_nth [OF i] sls_nth [OF i] by (rule selected_positions [OF steps])
    show "\<forall>p \<in> set (?pss ! i). p < length (coords A ! i)"
      unfolding pss_nth [OF i] using positions_of_in_range by blast
    show "coords ?out ! i = map (\<lambda>p. coords A ! i ! p) (?pss ! i)"
      using cs_nth [OF i] by simp
  qed
  have lcs: "length ?cs = ?n" by (simp add: len)
  have "map length ?pss = map length ?cs"
  proof (rule nth_equalityI)
    show "length (map length ?pss) = length (map length ?cs)" using lpss lcs by simp
  next
    fix i assume "i < length (map length ?pss)"
    then have i: "i < ?n" using lpss by simp
    then have "i < length ?pss" "i < length ?cs" using lpss lcs by simp_all
    then show "map length ?pss ! i = map length ?cs ! i"
      using cs_nth [OF i] by (simp del: map_map)
  qed
  then have inv': "core_invariant ?out"
    using lcs by (simp add: core_invariant_shape shape_tabulate del: map_map)
  have elems: "\<forall>idx. valid_index (shape (values ?out)) idx \<longrightarrow>
              get (values ?out) idx = get (values A) (map2 (\<lambda>ps i. ps ! i) ?pss idx)"
    by (simp add: shape_tabulate get_tabulate del: map_map)
  show ?thesis
    apply (rule exI [of _ ?out])
    apply (rule exI [of _ ?pss])
    using run lpss per_axis lcs inv' elems
    apply (simp add: shape_tabulate del: map_map)
    done
qed

text \<open>
  C2. For a labeled array that satisfies the core invariant and a subscript made of pairs of
  a dimension name and an integer or a slice (of non-zero step), \<^verbatim>\<open>__getitem__\<close> prints
  nothing and returns an array \<open>out\<close>: along every axis the positions taken are those of
  the slice the contract assigns to its dimension, all of them in range; the coordinate
  vector and the buffer are read at these same positions; names, attributes and rank are
  those of the receiver, and the invariant holds for \<open>out\<close>. An integer \<open>k\<close> in range selects
  the single position \<open>k\<close> (counted from the end when negative, so -1 the last one), a slice
  is used as it is, and a dimension that is not named is taken whole. On the 1-D example,
  \<^verbatim>\<open>A['x', 1]\<close> has the values \<^verbatim>\<open>[20]\<close> and the coordinates \<^verbatim>\<open>[[1]]\<close>.
\<close>

theorem getitem_resolves_and_slices:
  assumes inv: "core_invariant A" and steps: "\<forall>p \<in> set ps. nonzero_step (snd p)"
  shows "(\<exists>out pss.
           dnpData_getitem A (tokens_of ps) = ([], Inr (Some out)) \<and>
           length pss = length (dims A) \<and>
           (\<forall>i < length (dims A).
              slice_positions (selected_slice ps (dims A ! i) (length (coords A ! i)))
                (length (coords A ! i)) = Inr (pss ! i) \<and>
              (\<forall>p \<in> set (pss ! i). p < length (coords A ! i)) \<and>
              coords out ! i = map (\<lambda>p. coords A ! i ! p) (pss ! i)) \<and>
           dims out = dims A \<and> attrs out = attrs A \<and>
           length (coords out) = length (dims A) \<and>
           shape (values out) = map length pss \<and>
           (\<forall>idx. valid_index (shape (values out)) idx \<longrightarrow>
              get (values out) idx = get (values A) (map2 (\<lambda>ps i. ps ! i) pss idx)) \<and>
           core_invariant out) \<and>
         (map_of ps d = Some (SelInt k) \<and> 0 \<le> k \<and> k < int n \<longrightarrow>
            slice_positions (selected_slice ps d n) n = Inr [nat k]) \<and>
         (map_of ps d = Some (SelInt k) \<and> - int n \<le> k \<and> k < 0 \<longrightarrow>
            slice_positions (selected_slice ps d n) n = Inr [nat (k + int n)]) \<and>
         (map_of ps d = Some (SelSlice sl) \<longrightarrow> selected_slice ps d n = sl) \<and>
         (map_of ps d = None \<longrightarrow> slice_positions (selected_slice ps d n) n = Inr [0..<n]) \<and>
         dnpData_getitem example_1d (tokens_of [(''x'', SelInt 1)]) =
           ([], Inr (Some (example_1d\<lparr>values := \<lparr>shape = [1], data = [20]\<rparr>,
                                       coords := [[1]]\<rparr>)))"
proof (intro conjI impI)
  show "\<exists>out pss.
           dnpData_getitem A (tokens_of ps) = ([], Inr (Some out)) \<and>
           length pss = length (dims A) \<and>
           (\<forall>i < length (dims A).
              slice_positions (selected_slice ps (dims A ! i) (length (coords A ! i)))
                (length (coords A ! i)) = Inr (pss ! i) \<and>
              (\<forall>p \<in> set (pss ! i). p < length (coords A ! i)) \<and>
              coords out ! i = map (\<lambda>p. coords A ! i ! p) (pss ! i)) \<and>
           dims out = dims A \<and> attrs out = attrs A \<and>
           length (coords out) = length (dims A) \<and>
           shape (values out) = map length pss \<and>
           (\<forall>idx. valid_index (shape (values out)) idx \<longrightarrow>
              get (values out) idx = get (values A) (map2 (\<lambda>ps i. ps ! i) pss idx)) \<and>
           core_invariant out"
    by (rule getitem_selected [OF inv steps])
next
  assume a: "map_of ps d = Some (SelInt k) \<and> 0 \<le> k \<and> k < int n"
  then have sel: "selected_slice ps d n = Slice (Some k) (Some (k + 1)) None"
    by (simp add: selected_slice_def)
  show "slice_positions (selected_slice ps d n) n = Inr [nat k]"
    unfolding sel using a by (simp add: slice_positions_nonzero int_selector_positions)
next
  assume a: "map_of ps d = Some (SelInt k) \<and> - int n \<le> k \<and> k < 0"
  show "slice_positions (selected_slice ps d n) n = Inr [nat (k + int n)]"
  proof (cases "k = - 1")
    case True
    with a have "selected_slice ps d n = Slice (Some (- 1)) None None" and "0 < n"
      by (simp_all add: selected_slice_def)
    then show ?thesis
      using True by (simp add: slice_positions_nonzero int_selector_positions nat_diff_distrib')
  next
    case False
    with a have "selected_slice ps d n = Slice (Some k) (Some (k + 1)) None" and "k < - 1"
      by (simp_all add: selected_slice_def)
    then show ?thesis
      using a by (simp add: slice_positions_nonzero int_selector_positions)
  qed
next
  assume "map_of ps d = Some (SelSlice sl)"
  then show "selected_slice ps d n = sl" by (simp add: selected_slice_def)
next
  assume "map_of ps d = None"
  then have "selected_slice ps d n = Slice (Some 0) (Some (int n)) None"
    by (simp add: selected_slice_def)
  then show "slice_positions (selected_slice ps d n) n = Inr [0..<n]"
    by (simp add: slice_positions_nonzero int_selector_positions)
next
  show "dnpData_getitem example_1d (tokens_of [(''x'', SelInt 1)]) =
           ([], Inr (Some (example_1d\<lparr>values := \<lparr>shape = [1], data = [20]\<rparr>,
                                       coords := [[1]]\<rparr>)))"
    by code_simp
qed

theorem getitem_resolves_and_slices_witness:
  "core_invariant example_1d \<and> nonzero_step (SelInt 1) \<and>
   (\<exists>out. dnpData_getitem example_1d [TokStr ''x'', TokInt 1] = ([], Inr (Some out)) \<and>
          core_invariant out \<and> dims out = [''x'']) \<and>
   slice_positions (selected_slice [(''x'', SelInt 1)] ''x'' 4) 4 = Inr [1] \<and>
   slice_positions (selected_slice [(''x'', SelInt (- 1))] ''x'' 4) 4 = Inr [3] \<and>
   slice_positions (selected_slice [(''x'', SelInt 1)] ''y'' 4) 4 = Inr [0, 1, 2, 3]"
proof -
  have inv: "core_invariant example_1d" by code_simp
  have steps: "\<forall>p \<in> set [(''x'', SelInt 1)]. nonzero_step (snd p)" by simp
  have d: "dims example_1d = [''x'']" by (simp add: example_1d_def dnpData_init_def)
  have l: "[0..<4] = [0, 1, 2, 3]" by (simp add: upt_rec)
  from getitem_resolves_and_slices [OF inv steps, of "''x''" 1 4]
  have "\<exists>out. dnpData_getitem example_1d [TokStr ''x'', TokInt 1] = ([], Inr (Some out)) \<and>
          core_invariant out \<and> dims out = [''x'']"
    and "slice_positions (selected_slice [(''x'', SelInt 1)] ''x'' 4) 4 = Inr [1]"
    using d by auto
  moreover
  have steps': "\<forall>p \<in> set [(''x'', SelInt (- 1))]. nonzero_step (snd p)" by simp
  from getitem_resolves_and_slices [OF inv steps', of "''x''" "- 1" 4]
  have "slice_positions (selected_slice [(''x'', SelInt (- 1))] ''x'' 4) 4 = Inr [3]"
    by simp
  moreover
  from getitem_resolves_and_slices [OF inv steps, of "''y''" 0 4]
  have "slice_positions (selected_slice [(''x'', SelInt 1)] ''y'' 4) 4 = Inr [0, 1, 2, 3]"
    by (simp add: l)
  ultimately show ?thesis using inv by simp
qed

subsection \<open>Sorting, reordering and concatenation\<close>

lemma map_insort_key:
  "map f (insort_key f x ys) = insort (f x) (map f ys)"
  by (induction ys) simp_all

lemma map_sort_key: "map f (sort_key f xs) = sort (map f xs)"
  by (induction xs) (simp_all add: map_insort_key)

lemma is_permutation_set:
  assumes "is_permutation p n"
  shows "set p = {0..<n}"
proof -
  from assms have len: "length p = n" and d: "distinct p" and sub: "set p \<subseteq> {0..<n}"
    by (auto simp add: is_permutation_def list_all_iff)
  from d len have "card (set p) = n" by (simp add: distinct_card)
  with sub show ?thesis by (intro card_subset_eq) simp_all
qed

lemma is_permutation_sort_key: "is_permutation (sort_key f [0..<n]) n"
  by (simp add: is_permutation_def list_all_iff)

lemma py_select_permutation:
  assumes "is_permutation p (length xs)"
  shows "py_select xs p = Inr (map (\<lambda>ix. xs ! ix) p)"
  using assms by (simp add: py_select_def is_permutation_def)

lemma np_transpose_permutation:
  assumes "is_permutation p (ndim a)"
  shows "\<exists>v. np_transpose a p = Inr v \<and> shape v = map (\<lambda>k. shape a ! k) p"
  using assms by (auto simp add: np_transpose_def is_permutation_def shape_tabulate)

text \<open>Axes taken in the order of a permutation.\<close>

lemma index_of_in_set: "x \<in> set xs \<Longrightarrow> \<exists>i. index_of xs x = Some i"
  using index_of_None [of xs x] by (cases "index_of xs x") auto

lemma index_of_distinct_nth:
  assumes "distinct xs" and "i < length xs"
  shows "index_of xs (xs ! i) = Some i"
proof -
  from assms(2) have "xs ! i \<in> set xs" by simp
  from index_of_in_set [OF this] obtain j where j: "index_of xs (xs ! i) = Some j" by blast
  from index_of_Some [OF j] have "j < length xs" "xs ! j = xs ! i" by simp_all
  with assms have "j = i" by (simp add: nth_eq_iff_index_eq)
  with j show ?thesis by simp
qed

lemma index_of_permuted:
  assumes perm: "is_permutation p (length xs)" and dist: "distinct xs"
    and i: "index_of xs d = Some i"
  shows "\<exists>j. index_of (map (\<lambda>k. xs ! k) p) d = Some j \<and> j < length xs \<and> p ! j = i"
proof -
  from index_of_Some [OF i] have il: "i < length xs" and xi: "xs ! i = d" by simp_all
  from is_permutation_set [OF perm] il have "i \<in> set p" by simp
  with xi have "d \<in> set (map (\<lambda>k. xs ! k) p)" by force
  from index_of_in_set [OF this] obtain j where j: "index_of (map (\<lambda>k. xs ! k) p) d = Some j"
    by blast
  from index_of_Some [OF j] have jl: "j < length p" by simp
  from index_of_Some [OF j] jl have pj: "xs ! (p ! j) = d" by simp
  from perm have lp: "length p = length xs" by (simp add: is_permutation_def)
  from is_permutation_set [OF perm] jl have "p ! j < length xs"
    using nth_mem [OF jl] by simp
  with pj xi il dist have "p ! j = i" by (metis nth_eq_iff_index_eq)
  with j jl lp show ?thesis by simp
qed

lemma distinct_permuted:
  assumes perm: "is_permutation p (length xs)" and dist: "distinct xs"
  shows "distinct (map (\<lambda>k. xs ! k) p) \<and> set (map (\<lambda>k. xs ! k) p) = set xs"
proof
  from perm have dp: "distinct p" and sp: "set p = {0..<length xs}"
    using is_permutation_set [OF perm] by (simp_all add: is_permutation_def)
  show "distinct (map (\<lambda>k. xs ! k) p)"
    unfolding distinct_map
    using dp sp dist by (auto simp add: inj_on_def nth_eq_iff_index_eq)
  have "set (map (\<lambda>k. xs ! k) p) = (\<lambda>k. xs ! k) ` {0..<length xs}"
    using sp by simp
  also have "\<dots> = set xs"
    by (auto simp add: set_conv_nth)
  finally show "set (map (\<lambda>k. xs ! k) p) = set xs" .
qed

text \<open>What \<^verbatim>\<open>sort\<close> does to an array that satisfies the invariant.\<close>

lemma sort_invariant:
  assumes inv: "core_invariant A"
  shows "\<exists>A' p. dnpData_sort A = (None, A') \<and> is_permutation p (length (dims A)) \<and>
           dims A' = map (\<lambda>k. dims A ! k) p \<and> coords A' = map (\<lambda>k. coords A ! k) p \<and>
           shape (values A') = map (\<lambda>k. shape (values A) ! k) p \<and>
           np_transpose (values A) p = Inr (values A') \<and>
           attrs A' = attrs A \<and> dims A' = sort (dims A) \<and> core_invariant A'"
proof -
  let ?n = "length (dims A)"
  let ?p = "sort_key (\<lambda>k. dims A ! k) [0..<?n]"
  from inv have len: "?n = length (coords A)" and sh: "shape (values A) = map length (coords A)"
    by (simp_all add: core_invariant_shape)
  have perm: "is_permutation ?p ?n" by (rule is_permutation_sort_key)
  have sel: "py_select (coords A) ?p = Inr (map (\<lambda>k. coords A ! k) ?p)"
    using perm len by (simp add: py_select_permutation)
  have "is_permutation ?p (ndim (values A))" using perm len sh by (simp add: ndim_def)
  from np_transpose_permutation [OF this] obtain v where
    v: "np_transpose (values A) ?p = Inr v" "shape v = map (\<lambda>k. shape (values A) ! k) ?p"
    by blast
  let ?A' = "A\<lparr>coords := map (\<lambda>k. coords A ! k) ?p, dims := map (\<lambda>k. dims A ! k) ?p,
                values := v\<rparr>"
  have run: "dnpData_sort A = (None, ?A')"
    by (simp add: dnpData_sort_def Let_def sel v)
  have srt: "map (\<lambda>k. dims A ! k) ?p = sort (dims A)"
    by (simp add: map_sort_key map_nth)
  have "\<forall>k \<in> set ?p. k < length (coords A)" using len by simp
  then have "map (\<lambda>k. map length (coords A) ! k) ?p = map length (map (\<lambda>k. coords A ! k) ?p)"
    by (simp add: comp_def)
  then have inv': "core_invariant ?A'"
    using v(2) sh by (simp add: core_invariant_shape del: map_map)
  show ?thesis
    apply (rule exI [of _ ?A'])
    apply (rule exI [of _ ?p])
    using run perm v srt inv' apply simp
    done
qed

lemma len_permuted:
  assumes perm: "is_permutation p (length (dims S))" and dist: "distinct (dims S)"
    and inv: "core_invariant S"
    and d': "dims S' = map (\<lambda>k. dims S ! k) p"
    and c': "coords S' = map (\<lambda>k. coords S ! k) p"
    and s': "shape (values S') = map (\<lambda>k. shape (values S) ! k) p"
    and i: "index_of (dims S) d = Some i"
  shows "dnpData_len S d = Inr (shape (values S) ! i) \<and>
         dnpData_len S' d = Inr (shape (values S) ! i) \<and>
         dnpData_getAxes S d = Inr (coords S ! i) \<and>
         dnpData_getAxes S' d = Inr (coords S ! i)"
proof -
  from inv have len: "length (dims S) = length (coords S)"
    and sh: "shape (values S) = map length (coords S)"
    by (simp_all add: core_invariant_shape)
  from index_of_Some [OF i] have il: "i < length (dims S)" by simp
  from perm have lp: "length p = length (dims S)" by (simp add: is_permutation_def)
  from index_of_permuted [OF perm dist i] obtain j where
    j: "index_of (map (\<lambda>k. dims S ! k) p) d = Some j" "j < length (dims S)" "p ! j = i"
    by blast
  show ?thesis
    using i il j len sh lp
    by (simp add: dnpData_len_def dnpData_getAxes_def py_index_def ndim_def d' c' s')
qed

lemma append_missing_present: "set xs \<subseteq> set dms \<Longrightarrow> append_missing dms xs = dms"
  by (induction xs) simp_all

lemma index_all_present:
  "set ks \<subseteq> set xs \<Longrightarrow> index_all xs ks = Inr (map (\<lambda>k. the (index_of xs k)) ks)"
proof (induction ks)
  case Nil
  then show ?case by simp
next
  case (Cons k ks)
  then have "k \<in> set xs" by simp
  from index_of_in_set [OF this] obtain i where "index_of xs k = Some i" by blast
  with Cons show ?case by (simp add: py_index_def)
qed

lemma reorder_restores:
  assumes inv: "core_invariant S" and dist: "distinct (dims S)"
    and L: "set L = set (dims S)" and distL: "distinct L"
  shows "\<exists>S' q. dnpData_reorder S (DimList L) = ([], (None, S')) \<and>
           is_permutation q (length (dims S)) \<and>
           dims S' = map (\<lambda>k. dims S ! k) q \<and> dims S' = L \<and>
           coords S' = map (\<lambda>k. coords S ! k) q \<and>
           shape (values S') = map (\<lambda>k. shape (values S) ! k) q \<and>
           attrs S' = attrs S \<and> core_invariant S'"
proof -
  let ?n = "length (dims S)"
  let ?q = "map (\<lambda>k. the (index_of (dims S) k)) L"
  from inv have len: "?n = length (coords S)" and sh: "shape (values S) = map length (coords S)"
    by (simp_all add: core_invariant_shape)
  have lL: "length L = ?n"
    using distinct_card [OF dist] distinct_card [OF distL] L by simp
  have present: "index_of (dims S) k = Some (the (index_of (dims S) k))" if "k \<in> set L" for k
    using index_of_in_set [of k "dims S"] that L by auto
  have lt: "the (index_of (dims S) k) < ?n" and again: "dims S ! the (index_of (dims S) k) = k"
    if "k \<in> set L" for k
    using index_of_Some [OF present [OF that]] by simp_all
  have "inj_on (\<lambda>k. the (index_of (dims S) k)) (set L)"
    by (rule inj_onI) (metis again)
  then have dq: "distinct ?q" using distL by (simp add: distinct_map)
  have perm: "is_permutation ?q ?n"
    using dq lL lt by (simp add: is_permutation_def list_all_iff)
  have adj: "(if sort L \<noteq> sort (dims S)
            then (case find (\<lambda>label. label \<notin> set (dims S)) L of
                    Some label \<Rightarrow> Inl label
                  | None \<Rightarrow> Inr (append_missing L (dims S)))
            else Inr L) = Inr L"
  proof -
    have "find (\<lambda>label. label \<notin> set (dims S)) L = None"
      using L by (simp add: find_None_iff)
    moreover have "append_missing L (dims S) = L"
      using L by (simp add: append_missing_present)
    ultimately show ?thesis by simp
  qed
  have ia: "index_all (dims S) L = Inr ?q"
    using L by (simp add: index_all_present)
  have sel: "py_select (coords S) ?q = Inr (map (\<lambda>k. coords S ! k) ?q)"
    using perm len by (simp add: py_select_permutation)
  have "is_permutation ?q (ndim (values S))" using perm len sh by (simp add: ndim_def)
  from np_transpose_permutation [OF this] obtain v where
    v: "np_transpose (values S) ?q = Inr v" "shape v = map (\<lambda>k. shape (values S) ! k) ?q"
    by blast
  let ?S' = "S\<lparr>coords := map (\<lambda>k. coords S ! k) ?q, dims := map (\<lambda>k. dims S ! k) ?q,
                values := v\<rparr>"
  have run: "dnpData_reorder S (DimList L) = ([], (None, ?S'))"
    unfolding dnpData_reorder.simps reorder_list_def adj sum.case ia sel Let_def
    by (simp add: v(1))
  have restored: "map (\<lambda>k. dims S ! k) ?q = L"
    using again by (simp add: map_idI comp_def)
  have "\<forall>k \<in> set ?q. k < length (coords S)" using lt len by auto
  then have "map (\<lambda>k. map length (coords S) ! k) ?q = map length (map (\<lambda>k. coords S ! k) ?q)"
    by (simp add: comp_def)
  then have inv': "core_invariant ?S'"
    using v(2) sh lL by (simp add: core_invariant_shape del: map_map)
  show ?thesis
    apply (rule exI [of _ ?S'])
    apply (rule exI [of _ ?q])
    using run perm v(2) restored inv' apply (simp del: map_map)
    done
qed

lemma len_at_index:
  assumes inv: "core_invariant S" and j: "index_of (dims S) d = Some j"
  shows "dnpData_len S d = Inr (shape (values S) ! j) \<and> dnpData_getAxes S d = Inr (coords S ! j)"
proof -
  from inv have "length (dims S) = length (coords S)" "shape (values S) = map length (coords S)"
    by (simp_all add: core_invariant_shape)
  with index_of_Some [OF j] j show ?thesis
    by (simp add: dnpData_len_def dnpData_getAxes_def py_index_def ndim_def)
qed

lemma sorted_frame:
  assumes inv: "core_invariant X" and dist: "distinct (dims X)"
    and srt: "dnpData_sort X = (None, Xs)"
  shows "core_invariant Xs \<and> dims Xs = sort (dims X) \<and> distinct (dims Xs) \<and>
         set (dims Xs) = set (dims X) \<and> attrs Xs = attrs X \<and>
         (\<forall>d j. index_of (dims Xs) d = Some j \<longrightarrow>
            dnpData_len X d = Inr (shape (values Xs) ! j) \<and>
            dnpData_getAxes X d = Inr (coords Xs ! j))"
proof -
  from sort_invariant [OF inv] srt obtain p where
    perm: "is_permutation p (length (dims X))"
    and d': "dims Xs = map (\<lambda>k. dims X ! k) p" and c': "coords Xs = map (\<lambda>k. coords X ! k) p"
    and s': "shape (values Xs) = map (\<lambda>k. shape (values X) ! k) p"
    and a': "attrs Xs = attrs X"
    and sd: "dims Xs = sort (dims X)" and inv': "core_invariant Xs"
    by auto
  from distinct_permuted [OF perm dist] d'
  have dist': "distinct (dims Xs)" and set': "set (dims Xs) = set (dims X)" by simp_all
  have frame: "dnpData_len X d = Inr (shape (values Xs) ! j) \<and>
               dnpData_getAxes X d = Inr (coords Xs ! j)"
    if j: "index_of (dims Xs) d = Some j" for d j
  proof -
    from index_of_Some [OF j] have "d \<in> set (dims Xs)" by (metis nth_mem)
    with set' have "d \<in> set (dims X)" by simp
    from index_of_in_set [OF this] obtain i where i: "index_of (dims X) d = Some i" by blast
    from len_permuted [OF perm dist inv d' c' s' i] len_at_index [OF inv' j]
    show ?thesis by simp
  qed
  from inv' sd dist' set' a' frame show ?thesis by blast
qed

lemma reordered_frame:
  assumes inv: "core_invariant S" and dist: "distinct (dims S)"
    and L: "set L = set (dims S)" and distL: "distinct L"
  shows "\<exists>S'. dnpData_reorder S (DimList L) = ([], (None, S')) \<and> dims S' = L \<and>
           attrs S' = attrs S \<and> core_invariant S' \<and>
           (\<forall>d j. index_of (dims S) d = Some j \<longrightarrow>
              dnpData_len S' d = Inr (shape (values S) ! j) \<and>
              dnpData_getAxes S' d = Inr (coords S ! j))"
proof -
  from reorder_restores [OF inv dist L distL] obtain S' q where
    run: "dnpData_reorder S (DimList L) = ([], (None, S'))"
    and perm: "is_permutation q (length (dims S))"
    and d': "dims S' = map (\<lambda>k. dims S ! k) q" and dL: "dims S' = L"
    and c': "coords S' = map (\<lambda>k. coords S ! k) q"
    and s': "shape (values S') = map (\<lambda>k. shape (values S) ! k) q"
    and a': "attrs S' = attrs S" and inv': "core_invariant S'"
    by blast
  have "dnpData_len S' d = Inr (shape (values S) ! j) \<and>
        dnpData_getAxes S' d = Inr (coords S ! j)" if j: "index_of (dims S) d = Some j" for d j
    using len_permuted [OF perm dist inv d' c' s' j] by simp
  with run dL a' inv' show ?thesis by blast
qed

text \<open>The branches of \<^verbatim>\<open>concatenateAlong\<close> once both operands are sorted.\<close>

lemma concatenate_mismatch:
  assumes "dnpData_sort A = (None, As)" and "dnpData_sort B = (None, Bs)"
    and "dims As \<noteq> dims Bs"
  shows "dnpData_concatenateAlong A B d =
           \<lparr>printed = [], raised = Some (ValueError ''dims do not match''), receiver = As,
            operand = Bs\<rparr>"
  using assms by (simp add: dnpData_concatenateAlong_def)

lemma concatenate_absent:
  assumes "dnpData_sort A = (None, As)" and "dnpData_sort B = (None, Bs)"
    and "dims As = dims Bs" and "index_of (dims As) d = None"
  shows "dnpData_concatenateAlong A B d =
           \<lparr>printed = [], raised = Some (ValueError ''x is not in list''), receiver = As,
            operand = Bs\<rparr>"
  using assms by (simp add: dnpData_concatenateAlong_def py_index_def)

lemma concatenate_unequal:
  assumes "dnpData_sort A = (None, As)" and "dnpData_sort B = (None, Bs)"
    and "dims As = dims Bs" and "index_of (dims As) d = Some i"
    and "np_concatenate (values As) (values Bs) i = Inl e"
  shows "dnpData_concatenateAlong A B d =
           \<lparr>printed = [], raised = Some e, receiver = As, operand = Bs\<rparr>"
  using assms by (simp add: dnpData_concatenateAlong_def py_index_def)

lemma np_concatenate_cases:
  assumes "ndim a = ndim b" and "i < ndim a"
  shows "(shape a)[i := 0] = (shape b)[i := 0] \<longrightarrow>
           (\<exists>v. np_concatenate a b i = Inr v \<and>
                shape v = (shape a)[i := shape a ! i + shape b ! i])"
    and "(shape a)[i := 0] \<noteq> (shape b)[i := 0] \<longrightarrow> (\<exists>e. np_concatenate a b i = Inl e)"
  using assms by (auto simp add: np_concatenate_def shape_tabulate)

lemma concatenate_joined:
  assumes invA: "core_invariant A" and invB: "core_invariant B" and dist: "distinct (dims A)"
    and sA: "dnpData_sort A = (None, As)" and sB: "dnpData_sort B = (None, Bs)"
    and same: "dims As = dims Bs" and i: "index_of (dims As) d = Some i"
    and match: "(shape (values As))[i := 0] = (shape (values Bs))[i := 0]"
  shows "\<exists>A'. dnpData_concatenateAlong A B d =
                 \<lparr>printed = [], raised = None, receiver = A', operand = Bs\<rparr> \<and>
              dims A' = dims A \<and> attrs A' = attrs A \<and> core_invariant A' \<and>
              (\<forall>d' j. index_of (dims As) d' = Some j \<longrightarrow>
                 dnpData_len A' d' =
                   Inr (if j = i then shape (values As) ! i + shape (values Bs) ! i
                        else shape (values As) ! j) \<and>
                 dnpData_getAxes A' d' =
                   Inr (if j = i then coords As ! i @ coords Bs ! i else coords As ! j))"
proof -
  from sorted_frame [OF invA dist sA]
  have invAs: "core_invariant As" and distAs: "distinct (dims As)"
    and setAs: "set (dims As) = set (dims A)" and attrAs: "attrs As = attrs A" by blast+
  from sort_invariant [OF invB] sB have invBs: "core_invariant Bs" by auto
  from invAs have lenA: "length (dims As) = length (coords As)"
    and shA: "shape (values As) = map length (coords As)" by (simp_all add: core_invariant_shape)
  from invBs have lenB: "length (dims Bs) = length (coords Bs)"
    and shB: "shape (values Bs) = map length (coords Bs)" by (simp_all add: core_invariant_shape)
  from index_of_Some [OF i] have il: "i < length (dims As)" by simp
  have nd: "ndim (values As) = ndim (values Bs)" "i < ndim (values As)"
    using il lenA lenB shA shB same by (simp_all add: ndim_def)
  from np_concatenate_cases(1) [OF nd] match obtain v where
    v: "np_concatenate (values As) (values Bs) i = Inr v"
       "shape v = (shape (values As))[i := shape (values As) ! i + shape (values Bs) ! i]"
    by blast
  let ?Sc = "As\<lparr>values := v,
                coords := (coords As)[i := coords As ! i @ coords Bs ! i]\<rparr>"
  have "shape v = map length ((coords As)[i := coords As ! i @ coords Bs ! i])"
    using v(2) shA shB il lenA lenB same by (simp add: map_update)
  then have invSc: "core_invariant ?Sc"
    using lenA by (simp add: core_invariant_shape)
  have distSc: "distinct (dims ?Sc)" using distAs by simp
  have setL: "set (dims A) = set (dims ?Sc)" using setAs by simp
  from reordered_frame [OF invSc distSc setL dist] obtain A' where
    run: "dnpData_reorder ?Sc (DimList (dims A)) = ([], (None, A'))"
    and dA': "dims A' = dims A" and aA': "attrs A' = attrs ?Sc" and invA': "core_invariant A'"
    and frame: "\<forall>d j. index_of (dims ?Sc) d = Some j \<longrightarrow>
              dnpData_len A' d = Inr (shape (values ?Sc) ! j) \<and>
              dnpData_getAxes A' d = Inr (coords ?Sc ! j)"
    by blast
  have whole: "dnpData_concatenateAlong A B d =
                 \<lparr>printed = [], raised = None, receiver = A', operand = Bs\<rparr>"
    unfolding dnpData_concatenateAlong_def Let_def sA sB
    using same i v(1) il lenA lenB run
    by (simp add: py_index_def)
  have each: "dnpData_len A' d' =
                   Inr (if j = i then shape (values As) ! i + shape (values Bs) ! i
                        else shape (values As) ! j) \<and>
              dnpData_getAxes A' d' =
                   Inr (if j = i then coords As ! i @ coords Bs ! i else coords As ! j)"
    if j: "index_of (dims As) d' = Some j" for d' j
  proof -
    from index_of_Some [OF j] have jl: "j < length (dims As)" by simp
    from frame j have "dnpData_len A' d' = Inr (shape v ! j)"
      and "dnpData_getAxes A' d' = Inr ((coords As)[i := coords As ! i @ coords Bs ! i] ! j)"
      by simp_all
    then show ?thesis
      using v(2) jl il lenA shA by (simp add: nth_list_update)
  qed
  from whole dA' aA' attrAs invA' each show ?thesis by auto
qed

lemma concatenate_sorted_operands:
  assumes invA: "core_invariant A" and invB: "core_invariant B" and dist: "distinct (dims A)"
  obtains As Bs where "dnpData_sort A = (None, As)" and "dnpData_sort B = (None, Bs)"
    and "dims As = sort (dims A)" and "dims Bs = sort (dims B)"
    and "core_invariant As" and "core_invariant Bs"
  using sort_invariant [OF invA] sort_invariant [OF invB] by blast

lemma concatenate_success_conditions:
  assumes invA: "core_invariant A" and invB: "core_invariant B" and dist: "distinct (dims A)"
    and sA: "dnpData_sort A = (None, As)" and sB: "dnpData_sort B = (None, Bs)"
    and ok: "raised (dnpData_concatenateAlong A B d) = None"
  shows "dims As = dims Bs \<and>
         (\<exists>i. index_of (dims As) d = Some i \<and>
              (shape (values As))[i := 0] = (shape (values Bs))[i := 0])"
proof -
  from sort_invariant [OF invA] sA have invAs: "core_invariant As" by auto
  from sort_invariant [OF invB] sB have invBs: "core_invariant Bs" by auto
  have same: "dims As = dims Bs"
    using concatenate_mismatch [OF sA sB, of d] ok by (cases "dims As = dims Bs") simp_all
  obtain i where i: "index_of (dims As) d = Some i"
    using concatenate_absent [OF sA sB same, of d] ok by (cases "index_of (dims As) d") simp_all
  from index_of_Some [OF i] have il: "i < length (dims As)" by simp
  from invAs invBs same il have nd: "ndim (values As) = ndim (values Bs)" "i < ndim (values As)"
    by (simp_all add: core_invariant_shape ndim_def)
  have "(shape (values As))[i := 0] = (shape (values Bs))[i := 0]"
  proof (rule ccontr)
    assume "(shape (values As))[i := 0] \<noteq> (shape (values Bs))[i := 0]"
    with np_concatenate_cases(2) [OF nd] obtain e where
      "np_concatenate (values As) (values Bs) i = Inl e" by blast
    from concatenate_unequal [OF sA sB same i this] ok show False by simp
  qed
  with same i show ?thesis by blast
qed

text \<open>
  C3. Let \<open>A\<close> and \<open>B\<close> satisfy the core invariant, the dimension names of \<open>A\<close> being
  distinct. If the sorted lists of dimension names differ, \<^verbatim>\<open>concatenateAlong\<close> raises the
  \<^verbatim>\<open>ValueError\<close> for mismatching dims. If it raises nothing, the sorted lists are equal and
  \<open>d\<close> is a dimension; the receiver has its dimensions in the order they had before the
  call and satisfies the invariant; its length along \<open>d\<close> is the sum of the two lengths
  along \<open>d\<close>, its coordinate vector for \<open>d\<close> is that of \<open>A\<close> followed by that of \<open>B\<close>, and
  along every other dimension the length and the coordinate vector are those of \<open>A\<close>. And
  it raises nothing whenever the sorted lists are equal, \<open>d\<close> is a dimension and the two
  arrays have equal lengths along every other dimension.
\<close>

theorem concatenate_along_lengths:
  assumes invA: "core_invariant A" and invB: "core_invariant B" and dist: "distinct (dims A)"
  shows "(sort (dims A) \<noteq> sort (dims B) \<longrightarrow>
            raised (dnpData_concatenateAlong A B d) = Some (ValueError ''dims do not match'')) \<and>
         (raised (dnpData_concatenateAlong A B d) = None \<longrightarrow>
            sort (dims A) = sort (dims B) \<and> d \<in> set (dims A) \<and>
            dims (receiver (dnpData_concatenateAlong A B d)) = dims A \<and>
            core_invariant (receiver (dnpData_concatenateAlong A B d)) \<and>
            (\<exists>la lb. dnpData_len A d = Inr la \<and> dnpData_len B d = Inr lb \<and>
                dnpData_len (receiver (dnpData_concatenateAlong A B d)) d = Inr (la + lb)) \<and>
            (\<exists>ca cb. dnpData_getAxes A d = Inr ca \<and> dnpData_getAxes B d = Inr cb \<and>
                dnpData_getAxes (receiver (dnpData_concatenateAlong A B d)) d = Inr (ca @ cb)) \<and>
            (\<forall>d' \<in> set (dims A). d' \<noteq> d \<longrightarrow>
                (\<exists>l. dnpData_len A d' = Inr l \<and>
                     dnpData_len (receiver (dnpData_concatenateAlong A B d)) d' = Inr l) \<and>
                dnpData_getAxes (receiver (dnpData_concatenateAlong A B d)) d' =
                  dnpData_getAxes A d')) \<and>
         (sort (dims A) = sort (dims B) \<and> d \<in> set (dims A) \<and>
          (\<forall>d' \<in> set (dims A). d' \<noteq> d \<longrightarrow> dnpData_len A d' = dnpData_len B d') \<longrightarrow>
            raised (dnpData_concatenateAlong A B d) = None)"
proof -
  let ?R = "dnpData_concatenateAlong A B d"
  from concatenate_sorted_operands [OF invA invB dist] obtain As Bs where
    sA: "dnpData_sort A = (None, As)" and sB: "dnpData_sort B = (None, Bs)"
    and dAs: "dims As = sort (dims A)" and dBs: "dims Bs = sort (dims B)"
    and invAs: "core_invariant As" and invBs: "core_invariant Bs" by blast
  from sorted_frame [OF invA dist sA]
  have distAs: "distinct (dims As)" and setAs: "set (dims As) = set (dims A)"
    and frameA: "\<And>d j. index_of (dims As) d = Some j \<Longrightarrow>
            dnpData_len A d = Inr (shape (values As) ! j) \<and>
            dnpData_getAxes A d = Inr (coords As ! j)"
    by blast+
  have frameB: "dnpData_len B d' = Inr (shape (values Bs) ! j) \<and>
                dnpData_getAxes B d' = Inr (coords Bs ! j)"
    if same: "dims As = dims Bs" and j: "index_of (dims As) d' = Some j" for d' j
  proof -
    from same distAs dBs have "distinct (dims B)" by (metis distinct_sort)
    from sorted_frame [OF invB this sB] j same show ?thesis by simp
  qed
  have mismatch: "raised ?R = Some (ValueError ''dims do not match'')"
    if "sort (dims A) \<noteq> sort (dims B)"
    using concatenate_mismatch [OF sA sB, of d] that dAs dBs by simp
  have success: "sort (dims A) = sort (dims B) \<and> d \<in> set (dims A) \<and>
            dims (receiver ?R) = dims A \<and> core_invariant (receiver ?R) \<and>
            (\<exists>la lb. dnpData_len A d = Inr la \<and> dnpData_len B d = Inr lb \<and>
                dnpData_len (receiver ?R) d = Inr (la + lb)) \<and>
            (\<exists>ca cb. dnpData_getAxes A d = Inr ca \<and> dnpData_getAxes B d = Inr cb \<and>
                dnpData_getAxes (receiver ?R) d = Inr (ca @ cb)) \<and>
            (\<forall>d' \<in> set (dims A). d' \<noteq> d \<longrightarrow>
                (\<exists>l. dnpData_len A d' = Inr l \<and> dnpData_len (receiver ?R) d' = Inr l) \<and>
                dnpData_getAxes (receiver ?R) d' = dnpData_getAxes A d')"
    if ok: "raised ?R = None"
  proof -
    from concatenate_success_conditions [OF invA invB dist sA sB ok] obtain i where
      same: "dims As = dims Bs" and i: "index_of (dims As) d = Some i"
      and match: "(shape (values As))[i := 0] = (shape (values Bs))[i := 0]" by blast
    from concatenate_joined [OF invA invB dist sA sB same i match] obtain A' where
      whole: "?R = \<lparr>printed = [], raised = None, receiver = A', operand = Bs\<rparr>"
      and dA': "dims A' = dims A" and invA': "core_invariant A'"
      and each: "\<And>d' j. index_of (dims As) d' = Some j \<Longrightarrow>
                 dnpData_len A' d' =
                   Inr (if j = i then shape (values As) ! i + shape (values Bs) ! i
                        else shape (values As) ! j) \<and>
                 dnpData_getAxes A' d' =
                   Inr (if j = i then coords As ! i @ coords Bs ! i else coords As ! j)"
      by blast
    have rec: "receiver ?R = A'" using whole by simp
    from index_of_Some [OF i] setAs have din: "d \<in> set (dims A)" by (metis nth_mem)
    have atd: "\<exists>la lb. dnpData_len A d = Inr la \<and> dnpData_len B d = Inr lb \<and>
                dnpData_len A' d = Inr (la + lb)"
      using frameA [OF i] frameB [OF same i] each [OF i] by simp
    have cod: "\<exists>ca cb. dnpData_getAxes A d = Inr ca \<and> dnpData_getAxes B d = Inr cb \<and>
                dnpData_getAxes A' d = Inr (ca @ cb)"
      using frameA [OF i] frameB [OF same i] each [OF i] by simp
    have others: "(\<exists>l. dnpData_len A d' = Inr l \<and> dnpData_len A' d' = Inr l) \<and>
                dnpData_getAxes A' d' = dnpData_getAxes A d'"
      if d': "d' \<in> set (dims A)" and ne: "d' \<noteq> d" for d'
    proof -
      from d' setAs have "d' \<in> set (dims As)" by simp
      from index_of_in_set [OF this] obtain j where j: "index_of (dims As) d' = Some j" by blast
      from index_of_Some [OF j] index_of_Some [OF i] ne have "j \<noteq> i" by auto
      with frameA [OF j] each [OF j] show ?thesis by simp
    qed
    from same dAs dBs din dA' invA' atd cod others show ?thesis
      unfolding rec by simp
  qed
  have possible: "raised ?R = None"
    if pre: "sort (dims A) = sort (dims B) \<and> d \<in> set (dims A) \<and>
          (\<forall>d' \<in> set (dims A). d' \<noteq> d \<longrightarrow> dnpData_len A d' = dnpData_len B d')"
  proof -
    from pre dAs dBs have same: "dims As = dims Bs" by simp
    from pre setAs have "d \<in> set (dims As)" by simp
    from index_of_in_set [OF this] obtain i where i: "index_of (dims As) d = Some i" by blast
    from invAs invBs same have ls: "length (shape (values As)) = length (dims As)"
      "length (shape (values Bs)) = length (dims As)"
      by (simp_all add: core_invariant_shape)
    have match: "(shape (values As))[i := 0] = (shape (values Bs))[i := 0]"
    proof (rule nth_equalityI)
      show "length ((shape (values As))[i := 0]) = length ((shape (values Bs))[i := 0])"
        using ls by simp
    next
      fix j assume "j < length ((shape (values As))[i := 0])"
      then have jl: "j < length (dims As)" using ls by simp
      show "(shape (values As))[i := 0] ! j = (shape (values Bs))[i := 0] ! j"
      proof (cases "j = i")
        case True
        with jl ls show ?thesis by simp
      next
        case False
        let ?d' = "dims As ! j"
        from index_of_distinct_nth [OF distAs jl] have j: "index_of (dims As) ?d' = Some j" .
        with i False have "?d' \<noteq> d" by auto
        moreover have "?d' \<in> set (dims A)" using jl setAs by (metis nth_mem)
        ultimately have "dnpData_len A ?d' = dnpData_len B ?d'" using pre by blast
        with frameA [OF j] frameB [OF same j]
        have "shape (values As) ! j = shape (values Bs) ! j" by simp
        with False show ?thesis by simp
      qed
    qed
    from concatenate_joined [OF invA invB dist sA sB same i match]
    show ?thesis by auto
  qed
  from mismatch success possible show ?thesis by blast
qed

theorem concatenate_along_lengths_witness:
  "core_invariant example_yx \<and> core_invariant example_yx_column \<and>
   distinct (dims example_yx) \<and>
   raised (dnpData_concatenateAlong example_yx example_yx_column ''x'') = None \<and>
   dims (receiver (dnpData_concatenateAlong example_yx example_yx_column ''x'')) = [''y'', ''x''] \<and>
   dnpData_len (receiver (dnpData_concatenateAlong example_yx example_yx_column ''x'')) ''x'' = Inr 4 \<and>
   dnpData_len (receiver (dnpData_concatenateAlong example_yx example_yx_column ''x'')) ''y'' = Inr 2 \<and>
   dnpData_getAxes (receiver (dnpData_concatenateAlong example_yx example_yx_column ''x'')) ''x'' =
     Inr [5, 6, 7, 8] \<and>
   raised (dnpData_concatenateAlong example_yx example_1d ''x'') =
     Some (ValueError ''dims do not match'')"
proof -
  let ?R = "dnpData_concatenateAlong example_yx example_yx_column ''x''"
  have invA: "core_invariant example_yx" by code_simp
  have invB: "core_invariant example_yx_column" by code_simp
  have invC: "core_invariant example_1d" by code_simp
  have dA: "dims example_yx = [''y'', ''x'']" by (simp add: example_yx_def dnpData_init_def)
  have dB: "dims example_yx_column = [''y'', ''x'']"
    by (simp add: example_yx_column_def dnpData_init_def)
  have dC: "dims example_1d = [''x'']" by (simp add: example_1d_def dnpData_init_def)
  have dist: "distinct (dims example_yx)" by (simp add: dA)
  have lens: "dnpData_len example_yx ''x'' = Inr 3" "dnpData_len example_yx_column ''x'' = Inr 1"
    "dnpData_len example_yx ''y'' = Inr 2" "dnpData_len example_yx_column ''y'' = Inr 2"
    "dnpData_getAxes example_yx ''x'' = Inr [5, 6, 7]"
    "dnpData_getAxes example_yx_column ''x'' = Inr [8]"
    by code_simp+
  note main = concatenate_along_lengths [OF invA invB dist, of "''x''"]
  have pre: "sort (dims example_yx) = sort (dims example_yx_column) \<and>
     ''x'' \<in> set (dims example_yx) \<and>
     (\<forall>d' \<in> set (dims example_yx). d' \<noteq> ''x'' \<longrightarrow>
        dnpData_len example_yx d' = dnpData_len example_yx_column d')"
    using lens by (simp add: dA dB)
  with main have ok: "raised ?R = None" by blast
  with main have "dims (receiver ?R) = [''y'', ''x'']"
    and "\<exists>la lb. dnpData_len example_yx ''x'' = Inr la \<and> dnpData_len example_yx_column ''x'' = Inr lb \<and>
                dnpData_len (receiver ?R) ''x'' = Inr (la + lb)"
    and "\<exists>ca cb. dnpData_getAxes example_yx ''x'' = Inr ca \<and>
                dnpData_getAxes example_yx_column ''x'' = Inr cb \<and>
                dnpData_getAxes (receiver ?R) ''x'' = Inr (ca @ cb)"
    and "\<exists>l. dnpData_len example_yx ''y'' = Inr l \<and> dnpData_len (receiver ?R) ''y'' = Inr l"
    using dA by simp_all
  with lens have concl: "dims (receiver ?R) = [''y'', ''x'']"
    "dnpData_len (receiver ?R) ''x'' = Inr 4" "dnpData_len (receiver ?R) ''y'' = Inr 2"
    "dnpData_getAxes (receiver ?R) ''x'' = Inr [5, 6, 7, 8]"
    by simp_all
  have "sort (dims example_yx) \<noteq> sort (dims example_1d)" by (simp add: dA dC)
  with concatenate_along_lengths [OF invA invC dist, of "''x''"]
  have "raised (dnpData_concatenateAlong example_yx example_1d ''x'') =
     Some (ValueError ''dims do not match'')" by blast
  with invA invB dist ok concl show ?thesis by simp
qed

text \<open>
  C10. Under the same assumptions, after a call that raises nothing the second operand is
  what \<^verbatim>\<open>sort\<close> makes of it: its names are in sorted order, and its coordinate vectors
  and the axes of its buffer have been permuted along with them; only the receiver has
  its names in their original order again. An operand whose names were not sorted is
  therefore changed by the call. With the \<^verbatim>\<open>(2, 1)\<close> array over \<^verbatim>\<open>y\<close>, \<^verbatim>\<open>x\<close> as operand, the
  operand is left over \<^verbatim>\<open>x\<close>, \<^verbatim>\<open>y\<close> with shape \<^verbatim>\<open>(1, 2)\<close>.
\<close>

theorem concatenate_sorts_operand:
  assumes invA: "core_invariant A" and invB: "core_invariant B" and dist: "distinct (dims A)"
  shows "(raised (dnpData_concatenateAlong A B d) = None \<longrightarrow>
            dnpData_sort B = (None, operand (dnpData_concatenateAlong A B d)) \<and>
            dims (operand (dnpData_concatenateAlong A B d)) = sort (dims B) \<and>
            (\<exists>p. is_permutation p (length (dims B)) \<and>
               dims (operand (dnpData_concatenateAlong A B d)) = map (\<lambda>k. dims B ! k) p \<and>
               coords (operand (dnpData_concatenateAlong A B d)) = map (\<lambda>k. coords B ! k) p \<and>
               np_transpose (values B) p =
                 Inr (values (operand (dnpData_concatenateAlong A B d)))) \<and>
            dims (receiver (dnpData_concatenateAlong A B d)) = dims A) \<and>
         (dims B \<noteq> sort (dims B) \<longrightarrow> operand (dnpData_concatenateAlong A B d) \<noteq> B) \<and>
         operand (dnpData_concatenateAlong example_2d example_yx_column ''x'') =
           example_yx_column\<lparr>values := \<lparr>shape = [1, 2], data = [7, 8]\<rparr>,
                              coords := [[8], [30, 40]], dims := [''x'', ''y'']\<rparr> \<and>
         raised (dnpData_concatenateAlong example_2d example_yx_column ''x'') = None \<and>
         dims (receiver (dnpData_concatenateAlong example_yx example_yx_column ''x'')) =
           [''y'', ''x'']"
proof -
  let ?R = "dnpData_concatenateAlong A B d"
  from sort_invariant [OF invA] obtain As where sA: "dnpData_sort A = (None, As)" by blast
  from sort_invariant [OF invB] obtain Bs p where sB: "dnpData_sort B = (None, Bs)"
    and perm: "is_permutation p (length (dims B))"
    and d': "dims Bs = map (\<lambda>k. dims B ! k) p" and c': "coords Bs = map (\<lambda>k. coords B ! k) p"
    and v': "np_transpose (values B) p = Inr (values Bs)"
    and sd: "dims Bs = sort (dims B)"
    by blast
  have op: "operand ?R = Bs"
  proof (cases "dims As = dims Bs")
    case False
    from concatenate_mismatch [OF sA sB False] show ?thesis by simp
  next
    case same: True
    show ?thesis
    proof (cases "index_of (dims As) d")
      case None
      from concatenate_absent [OF sA sB same None] show ?thesis by simp
    next
      case (Some i)
      show ?thesis
      proof (cases "np_concatenate (values As) (values Bs) i")
        case (Inl e)
        from concatenate_unequal [OF sA sB same Some Inl] show ?thesis by simp
      next
        case (Inr v)
        from sort_invariant [OF invA] sA have invAs: "core_invariant As" by auto
        from sort_invariant [OF invB] sB have invBs: "core_invariant Bs" by auto
        from index_of_Some [OF Some] have il: "i < length (dims As)" by simp
        from invAs invBs same il have nd: "ndim (values As) = ndim (values Bs)"
          "i < ndim (values As)"
          by (simp_all add: core_invariant_shape ndim_def)
        from np_concatenate_cases(2) [OF nd] Inr
        have "(shape (values As))[i := 0] = (shape (values Bs))[i := 0]" by auto
        from concatenate_joined [OF invA invB dist sA sB same Some this]
        show ?thesis by auto
      qed
    qed
  qed
  have restored: "dims (receiver ?R) = dims A" if ok: "raised ?R = None"
  proof -
    from concatenate_success_conditions [OF invA invB dist sA sB ok] obtain i where
      same: "dims As = dims Bs" and i: "index_of (dims As) d = Some i"
      and match: "(shape (values As))[i := 0] = (shape (values Bs))[i := 0]" by blast
    from concatenate_joined [OF invA invB dist sA sB same i match] show ?thesis by auto
  qed
  have changed: "operand ?R \<noteq> B" if "dims B \<noteq> sort (dims B)"
    using op sd that by auto
  have ex1: "operand (dnpData_concatenateAlong example_2d example_yx_column ''x'') =
           example_yx_column\<lparr>values := \<lparr>shape = [1, 2], data = [7, 8]\<rparr>,
                              coords := [[8], [30, 40]], dims := [''x'', ''y'']\<rparr>"
    by code_simp
  have ex2: "raised (dnpData_concatenateAlong example_2d example_yx_column ''x'') = None"
    by code_simp
  have ex3: "dims (receiver (dnpData_concatenateAlong example_yx example_yx_column ''x'')) =
           [''y'', ''x'']"
    by code_simp
  from op sB perm d' c' v' sd restored changed ex1 ex2 ex3 show ?thesis by auto
qed

theorem concatenate_sorts_operand_witness:
  "core_invariant example_yx \<and> core_invariant example_yx_column \<and>
   distinct (dims example_yx) \<and>
   raised (dnpData_concatenateAlong example_yx example_yx_column ''x'') = None \<and>
   dims example_yx_column = [''y'', ''x''] \<and>
   dims (operand (dnpData_concatenateAlong example_yx example_yx_column ''x'')) = [''x'', ''y''] \<and>
   operand (dnpData_concatenateAlong example_yx example_yx_column ''x'') \<noteq> example_yx_column \<and>
   dims (receiver (dnpData_concatenateAlong example_yx example_yx_column ''x'')) = [''y'', ''x'']"
proof -
  let ?R = "dnpData_concatenateAlong example_yx example_yx_column ''x''"
  have invA: "core_invariant example_yx" by code_simp
  have invB: "core_invariant example_yx_column" by code_simp
  have dA: "dims example_yx = [''y'', ''x'']" by (simp add: example_yx_def dnpData_init_def)
  have dB: "dims example_yx_column = [''y'', ''x'']"
    by (simp add: example_yx_column_def dnpData_init_def)
  have dist: "distinct (dims example_yx)" by (simp add: dA)
  have ok: "raised ?R = None" by code_simp
  have srt: "sort (dims example_yx_column) = [''x'', ''y'']" unfolding dB by code_simp
  from concatenate_sorts_operand [OF invA invB dist, of "''x''"] ok srt dA dB
  have "dims (operand ?R) = [''x'', ''y'']" and "operand ?R \<noteq> example_yx_column"
    and "dims (receiver ?R) = [''y'', ''x'']"
    by simp_all
  with invA invB dist ok dB show ?thesis by simp
qed

end
